theory Spec2Isabelle
  imports Complex_Main "HOL-Library.Sublist" "HOL-Library.Multiset"
begin

section \<open>The JavaScript values that tmdbAPI.js computes with\<close>

text \<open>
  The backend file \<^verbatim>\<open>aryflix-backend/tmdbAPI.js\<close> is embedded function by function.
  Strings are lists of 8-bit characters (the code points below 256), a field that may be
  absent (\<^verbatim>\<open>undefined\<close> or \<^verbatim>\<open>null\<close>) is an \<open>option\<close>, and a \<^verbatim>\<open>throw\<close> is the left summand
  of \<open>error + 'a\<close>.
  Numbers are reals: a double is the real it denotes, and NaN and the infinities are not
  represented (a negative popularity, for which \<^verbatim>\<open>Math.log\<close> gives NaN, is outside the
  model). The score of a search result is given twice: in exact arithmetic, where
  \<^verbatim>\<open>Math.log\<close> is \<open>ln\<close>, and as the runtime computes it, where every operation rounds
  and the rounding operations are parameters.
\<close>

datatype error =
  TypeError          \<comment> \<open>a property read on \<^verbatim>\<open>undefined\<close>, e.g. \<^verbatim>\<open>title.toLowerCase()\<close>\<close>
| ProviderError      \<comment> \<open>a rejected axios request\<close>
| Failed string      \<comment> \<open>\<^verbatim>\<open>throw new Error(message)\<close> of a catch block\<close>

subsection \<open>Strings\<close>

text \<open>
  \<^verbatim>\<open>String.prototype.toLowerCase\<close>: among the code points below 256 the upper-case letters
  are A to Z and U+00C0 to U+00DE without the multiplication sign U+00D7, and each has
  its lower-case letter 32 code points above it.
\<close>

definition toLowerChar :: "char \<Rightarrow> char" where
  "toLowerChar c =
     (case map_of (zip
        (''ABCDEFGHIJKLMNOPQRSTUVWXYZ'' @
         [CHR 0xC0, CHR 0xC1, CHR 0xC2, CHR 0xC3, CHR 0xC4, CHR 0xC5, CHR 0xC6, CHR 0xC7,
          CHR 0xC8, CHR 0xC9, CHR 0xCA, CHR 0xCB, CHR 0xCC, CHR 0xCD, CHR 0xCE, CHR 0xCF,
          CHR 0xD0, CHR 0xD1, CHR 0xD2, CHR 0xD3, CHR 0xD4, CHR 0xD5, CHR 0xD6,
          CHR 0xD8, CHR 0xD9, CHR 0xDA, CHR 0xDB, CHR 0xDC, CHR 0xDD, CHR 0xDE])
        (''abcdefghijklmnopqrstuvwxyz'' @
         [CHR 0xE0, CHR 0xE1, CHR 0xE2, CHR 0xE3, CHR 0xE4, CHR 0xE5, CHR 0xE6, CHR 0xE7,
          CHR 0xE8, CHR 0xE9, CHR 0xEA, CHR 0xEB, CHR 0xEC, CHR 0xED, CHR 0xEE, CHR 0xEF,
          CHR 0xF0, CHR 0xF1, CHR 0xF2, CHR 0xF3, CHR 0xF4, CHR 0xF5, CHR 0xF6,
          CHR 0xF8, CHR 0xF9, CHR 0xFA, CHR 0xFB, CHR 0xFC, CHR 0xFD, CHR 0xFE])) c of
        None \<Rightarrow> c
      | Some d \<Rightarrow> d)"

definition toLowerCase :: "string \<Rightarrow> string" where
  "toLowerCase s = map toLowerChar s"

text \<open>\<^verbatim>\<open>s.startsWith(t)\<close> and \<^verbatim>\<open>s.includes(t)\<close>.\<close>

fun str_startsWith :: "string \<Rightarrow> string \<Rightarrow> bool" where
  "str_startsWith s [] = True"
| "str_startsWith [] (c # t) = False"
| "str_startsWith (a # s) (c # t) = (a = c \<and> str_startsWith s t)"

fun str_includes :: "string \<Rightarrow> string \<Rightarrow> bool" where
  "str_includes [] t = (t = [])"
| "str_includes (a # s) t = (str_startsWith (a # s) t \<or> str_includes s t)"

text \<open>
  The characters the regular expression class \<^verbatim>\<open>\s\<close> matches among the first 256 code
  points, and \<^verbatim>\<open>s.split(/\s+/)\<close>: the pieces between maximal runs of white space. A
  leading or trailing run leaves an empty piece, and the empty string splits into one
  empty piece.
\<close>

definition isWhiteSpace :: "char \<Rightarrow> bool" where
  "isWhiteSpace c =
     (c \<in> set [CHR 0x09, CHR 0x0A, CHR 0x0B, CHR 0x0C, CHR 0x0D, CHR '' '', CHR 0xA0])"

function split_ws :: "string \<Rightarrow> string list" where
  "split_ws [] = [[]]"
| "split_ws (c # cs) =
     (if isWhiteSpace c then [] # split_ws (dropWhile isWhiteSpace cs)
      else (case split_ws cs of [] \<Rightarrow> [[c]] | w # ws \<Rightarrow> (c # w) # ws))"
  by pat_completeness auto
termination
  by (relation "measure length") (auto simp: length_dropWhile_le le_imp_less_Suc)

text \<open>\<^verbatim>\<open>Number.prototype.toString\<close> on an integer: its decimal digits.\<close>

definition digit_char :: "nat \<Rightarrow> char" where
  "digit_char d = ''0123456789'' ! d"

function digits :: "nat \<Rightarrow> string" where
  "digits n = (if n < 10 then [digit_char n] else digits (n div 10) @ [digit_char (n mod 10)])"
  by pat_completeness auto
termination
  by (relation "measure id") auto

declare digits.simps [simp del]

definition num_toString :: "int \<Rightarrow> string" where
  "num_toString i = (if i < 0 then CHR ''-'' # digits (nat (- i)) else digits (nat i))"

text \<open>A template literal prints an absent value as \<^verbatim>\<open>undefined\<close>.\<close>

definition template_str :: "string option \<Rightarrow> string" where
  "template_str s = (case s of None \<Rightarrow> ''undefined'' | Some t \<Rightarrow> t)"

subsection \<open>Arrays\<close>

text \<open>
  \<^verbatim>\<open>Array.prototype.find\<close> and \<^verbatim>\<open>map\<close> with a callback that may throw: the elements
  are visited from the left and the first exception ends the call.
\<close>

fun array_find :: "('a \<Rightarrow> error + bool) \<Rightarrow> 'a list \<Rightarrow> error + 'a option" where
  "array_find p [] = Inr None"
| "array_find p (x # xs) =
     (case p x of
        Inl e \<Rightarrow> Inl e
      | Inr b \<Rightarrow> if b then Inr (Some x) else array_find p xs)"

fun array_map :: "('a \<Rightarrow> error + 'b) \<Rightarrow> 'a list \<Rightarrow> error + 'b list" where
  "array_map f [] = Inr []"
| "array_map f (x # xs) =
     (case f x of
        Inl e \<Rightarrow> Inl e
      | Inr y \<Rightarrow> (case array_map f xs of Inl e \<Rightarrow> Inl e | Inr ys \<Rightarrow> Inr (y # ys)))"

text \<open>\<^verbatim>\<open>Array.prototype.findIndex\<close>: the first index that satisfies the callback, or -1.\<close>

fun findIndex :: "('a \<Rightarrow> bool) \<Rightarrow> 'a list \<Rightarrow> int" where
  "findIndex p [] = - 1"
| "findIndex p (x # xs) =
     (if p x then 0 else (let i = findIndex p xs in if i < 0 then - 1 else i + 1))"

text \<open>
  \<^verbatim>\<open>Array.prototype.sort(compareFn)\<close>. ECMAScript (2019 and later) requires the sort to
  be stable; for a comparator that orders the elements consistently the result is then
  determined, whatever algorithm the engine runs, and a stable insertion sort computes
  it. \<open>compareFn a b \<le> 0\<close> keeps \<open>a\<close> before \<open>b\<close>. A comparator that throws ends the
  sort with its exception; a sort of two or more elements compares every element at
  least once.
\<close>

fun insort_cmp :: "('a \<Rightarrow> 'a \<Rightarrow> error + 'n::linordered_idom) \<Rightarrow> 'a \<Rightarrow> 'a list \<Rightarrow> error + 'a list" where
  "insort_cmp cmp x [] = Inr [x]"
| "insort_cmp cmp x (y # ys) =
     (case cmp x y of
        Inl e \<Rightarrow> Inl e
      | Inr c \<Rightarrow>
          if c \<le> 0 then Inr (x # y # ys)
          else (case insort_cmp cmp x ys of Inl e \<Rightarrow> Inl e | Inr zs \<Rightarrow> Inr (y # zs)))"

fun array_sort :: "('a \<Rightarrow> 'a \<Rightarrow> error + 'n::linordered_idom) \<Rightarrow> 'a list \<Rightarrow> error + 'a list" where
  "array_sort cmp [] = Inr []"
| "array_sort cmp (x # xs) =
     (case array_sort cmp xs of Inl e \<Rightarrow> Inl e | Inr ys \<Rightarrow> insort_cmp cmp x ys)"

section \<open>Search: scoring and ranking\<close>

text \<open>
  \<^verbatim>\<open>calculateSmartScore\<close> (lines 1135-1199) in exact arithmetic, section by section.
  Line 1143, \<^verbatim>\<open>Math.log(popularity || 1) * 50\<close>: the operator \<^verbatim>\<open>||\<close> replaces an absent
  or zero popularity by 1 and leaves every other number as it is.
\<close>

definition popularityScore :: "real option \<Rightarrow> real" where
  "popularityScore popularity =
     ln (case popularity of None \<Rightarrow> 1 | Some p \<Rightarrow> if p = 0 then 1 else p) * 50"

text \<open>Lines 1149-1151, \<^verbatim>\<open>if (rating && voteCount > 100) score += (rating / 10) * 20\<close>.\<close>

definition qualityBonus :: "real option \<Rightarrow> real option \<Rightarrow> real" where
  "qualityBonus rating voteCount =
     (case rating of
        None \<Rightarrow> 0
      | Some r \<Rightarrow>
          if r \<noteq> 0 \<and> (case voteCount of None \<Rightarrow> False | Some v \<Rightarrow> v > 100)
          then (r / 10) * 20 else 0)"

text \<open>Lines 1159-1173: the bonuses for the query inside the title.\<close>

definition relevanceBonus :: "string \<Rightarrow> string \<Rightarrow> real" where
  "relevanceBonus titleLower queryLower =
     (if str_includes titleLower queryLower
      then 30 + (if titleLower = queryLower then 20 else 0)
              + (if str_startsWith titleLower queryLower then 15 else 0)
      else 0)"

text \<open>Lines 1178-1190: the two nested \<^verbatim>\<open>forEach\<close> loops that count \<^verbatim>\<open>wordMatches\<close>.\<close>

definition wordMatches :: "string list \<Rightarrow> string list \<Rightarrow> nat" where
  "wordMatches queryWords titleWords =
     fold (\<lambda>queryWord n.
        fold (\<lambda>titleWord m.
           if str_includes titleWord queryWord \<or> str_includes queryWord titleWord
           then m + 1 else m) titleWords n) queryWords 0"

definition calculateSmartScore ::
  "string option \<Rightarrow> string \<Rightarrow> real option \<Rightarrow> real option \<Rightarrow> real option \<Rightarrow> error + real" where
  "calculateSmartScore title query popularity rating voteCount =
     (case title of
        None \<Rightarrow> Inl TypeError
      | Some t \<Rightarrow>
          (let titleLower = toLowerCase t;
               queryLower = toLowerCase query;
               titleWords = split_ws titleLower;
               queryWords = split_ws queryLower
           in Inr (popularityScore popularity + qualityBonus rating voteCount
                   + relevanceBonus titleLower queryLower
                   + real (wordMatches queryWords titleWords) * 5)))"

text \<open>
  The arithmetic of the runtime. The operations of a JavaScript engine work on doubles
  and round; how \<^verbatim>\<open>Math.log\<close> rounds is left to the engine. They are parameters, and
  \<open>exact\<close> is the arithmetic that does not round.
\<close>

record arith =
  fl_log :: "real \<Rightarrow> real"
  fl_add :: "real \<Rightarrow> real \<Rightarrow> real"
  fl_sub :: "real \<Rightarrow> real \<Rightarrow> real"
  fl_mul :: "real \<Rightarrow> real \<Rightarrow> real"
  fl_div :: "real \<Rightarrow> real \<Rightarrow> real"

definition exact :: arith where
  "exact = \<lparr>fl_log = ln, fl_add = (+), fl_sub = (-), fl_mul = (*), fl_div = (/)\<rparr>"

text \<open>
  What the statements below use of IEEE 754 arithmetic in round-to-nearest: a sum is
  off by at most the fraction \<open>2 ^ 53\<close> of its exact value, a product of two natural
  numbers below \<open>2 ^ 53\<close> is exact, and a difference has the sign of the exact
  difference.
\<close>

definition ieee_double :: "arith \<Rightarrow> bool" where
  "ieee_double ar \<longleftrightarrow>
     (\<forall>x y. \<bar>fl_add ar x y - (x + y)\<bar> \<le> \<bar>x + y\<bar> / 2 ^ 53)
     \<and> (\<forall>i j :: nat. i * j < 2 ^ 53 \<longrightarrow> fl_mul ar (real i) (real j) = real (i * j))
     \<and> (\<forall>x y. (fl_sub ar x y \<le> 0) = (x \<le> y))"

text \<open>
  \<^verbatim>\<open>calculateSmartScore\<close> as the runtime computes it, statement by statement: lines
  1143-1151 set the score and add the quality bonus, lines 1159-1173 add the bonuses for
  the query inside the title, line 1192 adds \<^verbatim>\<open>wordMatches * 5\<close>.
\<close>

definition scoreAfterQuality :: "arith \<Rightarrow> real option \<Rightarrow> real option \<Rightarrow> real option \<Rightarrow> real" where
  "scoreAfterQuality ar popularity rating voteCount =
     (let score = fl_mul ar (fl_log ar (case popularity of None \<Rightarrow> 1
                                         | Some p \<Rightarrow> if p = 0 then 1 else p)) 50
      in case rating of
           None \<Rightarrow> score
         | Some r \<Rightarrow>
             if r \<noteq> 0 \<and> (case voteCount of None \<Rightarrow> False | Some v \<Rightarrow> v > 100)
             then fl_add ar score (fl_mul ar (fl_div ar r 10) 20) else score)"

definition scoreAfterRelevance :: "arith \<Rightarrow> real \<Rightarrow> string \<Rightarrow> string \<Rightarrow> real" where
  "scoreAfterRelevance ar score titleLower queryLower =
     (if str_includes titleLower queryLower
      then (let score = fl_add ar score 30;
                score = (if titleLower = queryLower then fl_add ar score 20 else score);
                score = (if str_startsWith titleLower queryLower then fl_add ar score 15
                         else score)
            in score)
      else score)"

definition calculateSmartScore_fl ::
  "arith \<Rightarrow> string option \<Rightarrow> string \<Rightarrow> real option \<Rightarrow> real option \<Rightarrow> real option
     \<Rightarrow> error + real" where
  "calculateSmartScore_fl ar title query popularity rating voteCount =
     (case title of
        None \<Rightarrow> Inl TypeError
      | Some t \<Rightarrow>
          (let titleLower = toLowerCase t;
               queryLower = toLowerCase query;
               score = scoreAfterQuality ar popularity rating voteCount;
               score = scoreAfterRelevance ar score titleLower queryLower;
               titleWords = split_ws titleLower;
               queryWords = split_ws queryLower
           in Inr (fl_add ar score (fl_mul ar (real (wordMatches queryWords titleWords)) 5))))"

text \<open>
  The fields of a TMDB result object that the code reads. \<open>genres\<close> holds the \<open>id\<close>
  of each genre object, the only field of a genre the code reads; a details response
  has it, a list response has not.
\<close>

record media =
  item_id :: int
  media_type :: "string option"
  title :: "string option"
  name :: "string option"
  release_date :: "string option"
  first_air_date :: "string option"
  poster_path :: "string option"
  popularity :: "real option"
  vote_average :: "real option"
  vote_count :: "real option"
  genres :: "int list option"

text \<open>
  \<^verbatim>\<open>searchMoviesAndTV\<close> (lines 1028-1087). The two provider responses are arguments.
  Lines 1053-1066 reshape the results, line 1069 concatenates them, lines 1072-1078 sort
  with the comparator \<^verbatim>\<open>scoreB - scoreA\<close> on the scores the runtime computes, line 1082
  keeps the first 20; the catch block replaces every exception by
  \<^verbatim>\<open>Failed to search content\<close>.
\<close>

definition posterUrl :: "string option \<Rightarrow> string option" where
  "posterUrl p =
     (case p of
        None \<Rightarrow> None
      | Some path \<Rightarrow> if path = [] then None else Some (''https://image.tmdb.org/t/p/w500'' @ path))"

definition processMovie :: "media \<Rightarrow> media" where
  "processMovie movie =
     movie\<lparr>media_type := Some ''movie'', poster_path := posterUrl (poster_path movie)\<rparr>"

definition processTV :: "media \<Rightarrow> media" where
  "processTV show =
     show\<lparr>media_type := Some ''tv'', poster_path := posterUrl (poster_path show),
          title := name show, release_date := first_air_date show\<rparr>"

definition smartScoreOf :: "arith \<Rightarrow> string \<Rightarrow> media \<Rightarrow> error + real" where
  "smartScoreOf ar query a =
     calculateSmartScore_fl ar (title a) query (popularity a) (vote_average a) (vote_count a)"

definition compareScores :: "arith \<Rightarrow> string \<Rightarrow> media \<Rightarrow> media \<Rightarrow> error + real" where
  "compareScores ar query a b =
     (case smartScoreOf ar query a of
        Inl e \<Rightarrow> Inl e
      | Inr scoreA \<Rightarrow>
          (case smartScoreOf ar query b of
             Inl e \<Rightarrow> Inl e
           | Inr scoreB \<Rightarrow> Inr (fl_sub ar scoreB scoreA)))"

definition rankResults :: "arith \<Rightarrow> string \<Rightarrow> media list \<Rightarrow> error + media list" where
  "rankResults ar query allResults = array_sort (compareScores ar query) allResults"

definition searchMoviesAndTV ::
  "arith \<Rightarrow> string \<Rightarrow> error + media list \<Rightarrow> error + media list \<Rightarrow> error + media list" where
  "searchMoviesAndTV ar query moviesResponse tvResponse =
     (case moviesResponse of
        Inl e \<Rightarrow> Inl (Failed ''Failed to search content'')
      | Inr movieResults \<Rightarrow>
          (case tvResponse of
             Inl e \<Rightarrow> Inl (Failed ''Failed to search content'')
           | Inr tvResults \<Rightarrow>
               (let movies = map processMovie movieResults;
                    tvShows = map processTV tvResults;
                    allResults = movies @ tvShows
                in case rankResults ar query allResults of
                     Inl e \<Rightarrow> Inl (Failed ''Failed to search content'')
                   | Inr ranked \<Rightarrow> Inr (take 20 ranked))))"

section \<open>Trailer resolution\<close>

subsection \<open>Primary lookup among the videos of the details response\<close>

text \<open>
  A video object of a TMDB details response. \<open>video_site\<close> and \<open>video_type\<close> are only
  compared with \<^verbatim>\<open>===\<close>, so an absent one behaves as any other string; \<open>video_name\<close>
  is dereferenced (\<^verbatim>\<open>video.name.toLowerCase()\<close>), so its absence is kept apart.
\<close>

record video =
  video_site :: string
  video_type :: string
  video_name :: "string option"
  video_key :: string

definition nameIncludes :: "video \<Rightarrow> string \<Rightarrow> error + bool" where
  "nameIncludes v w =
     (case video_name v of
        None \<Rightarrow> Inl TypeError
      | Some n \<Rightarrow> Inr (str_includes (toLowerCase n) w))"

text \<open>Lines 788-794; the operator \<^verbatim>\<open>&&\<close> reads the name only after the type matched.\<close>

definition trailerPriorities :: "(video \<Rightarrow> error + bool) list" where
  "trailerPriorities =
     [\<lambda>v. if video_type v = ''Trailer'' then nameIncludes v ''official'' else Inr False,
      \<lambda>v. if video_type v = ''Trailer'' then nameIncludes v ''main'' else Inr False,
      \<lambda>v. Inr (video_type v = ''Trailer''),
      \<lambda>v. if video_type v = ''Teaser'' then nameIncludes v ''official'' else Inr False,
      \<lambda>v. Inr (video_type v = ''Teaser'')]"

text \<open>Lines 797-803: the loop over the priorities, then \<^verbatim>\<open>youtubeVideos[0] || null\<close>.\<close>

fun tryPriorities :: "(video \<Rightarrow> error + bool) list \<Rightarrow> video list \<Rightarrow> error + video option" where
  "tryPriorities [] youtubeVideos =
     Inr (case youtubeVideos of [] \<Rightarrow> None | v # rest \<Rightarrow> Some v)"
| "tryPriorities (priorityCheck # later) youtubeVideos =
     (case array_find priorityCheck youtubeVideos of
        Inl e \<Rightarrow> Inl e
      | Inr None \<Rightarrow> tryPriorities later youtubeVideos
      | Inr (Some foundTrailer) \<Rightarrow> Inr (Some foundTrailer))"

definition getValidTMDBTrailer :: "video list \<Rightarrow> error + video option" where
  "getValidTMDBTrailer videos =
     (if videos = [] then Inr None
      else (let youtubeVideos = filter (\<lambda>v. video_site v = ''YouTube'') videos
            in if youtubeVideos = [] then Inr None
               else tryPriorities trailerPriorities youtubeVideos))"

subsection \<open>Secondary search on YouTube\<close>

text \<open>
  An item of a YouTube search response: \<^verbatim>\<open>id.videoId\<close> and the three fields of
  \<^verbatim>\<open>snippet\<close> that \<^verbatim>\<open>calculateTrailerScore\<close> lower-cases.
\<close>

record ytVideo =
  videoId :: string
  snippet_title :: "string option"
  snippet_description :: "string option"
  snippet_channelTitle :: "string option"

text \<open>
  Line 821, \<^verbatim>\<open>releaseDate ? new Date(releaseDate).getFullYear() : ''\<close>: the empty string
  without a release date, NaN for a date that does not parse, the year otherwise. The
  date parser of the runtime, which reads the year in local time, is the parameter
  \<open>getFullYear\<close>.
\<close>

datatype jsYear = EmptyString | NaN | YearNumber int

definition yearOf :: "(string \<Rightarrow> int option) \<Rightarrow> string option \<Rightarrow> jsYear" where
  "yearOf getFullYear releaseDate =
     (case releaseDate of
        None \<Rightarrow> EmptyString
      | Some d \<Rightarrow>
          if d = [] then EmptyString
          else (case getFullYear d of None \<Rightarrow> NaN | Some y \<Rightarrow> YearNumber y))"

fun year_toString :: "jsYear \<Rightarrow> string" where
  "year_toString EmptyString = []"
| "year_toString NaN = ''NaN''"
| "year_toString (YearNumber y) = num_toString y"

fun year_truthy :: "jsYear \<Rightarrow> bool" where
  "year_truthy EmptyString = False"
| "year_truthy NaN = False"
| "year_truthy (YearNumber y) = (y \<noteq> 0)"

definition officialChannels :: "string list" where
  "officialChannels = [''netflix'', ''hbo'', ''amazon prime'', ''disney'', ''warner'']"

text \<open>\<^verbatim>\<open>calculateTrailerScore\<close> (lines 890-922): \<open>score\<close> is updated statement by statement.\<close>

definition calculateTrailerScore :: "ytVideo \<Rightarrow> string \<Rightarrow> jsYear \<Rightarrow> error + int" where
  "calculateTrailerScore v originalTitle year =
     (case snippet_title v of None \<Rightarrow> Inl TypeError | Some t \<Rightarrow>
     (case snippet_description v of None \<Rightarrow> Inl TypeError | Some d \<Rightarrow>
     (case snippet_channelTitle v of None \<Rightarrow> Inl TypeError | Some ch \<Rightarrow>
        (let vtitle = toLowerCase t;
             description = toLowerCase d;
             channelName = toLowerCase ch;
             originalTitleLower = toLowerCase originalTitle;
             score = 0;
             score = (if str_includes vtitle originalTitleLower then score + 10 else score);
             score = (if year_truthy year \<and>
                         (str_includes vtitle (year_toString year) \<or>
                          str_includes description (year_toString year))
                      then score + 5 else score);
             score = (if str_includes vtitle ''official'' then score + 8 else score);
             score = (if str_includes vtitle ''trailer'' then score + 6 else score);
             score = (if list_ex (\<lambda>channel. str_includes channelName channel) officialChannels
                      then score + 10 else score);
             score = (if str_includes vtitle ''reaction'' then score - 10 else score);
             score = (if str_includes vtitle ''review'' then score - 10 else score);
             score = (if str_includes vtitle ''fan made'' then score - 15 else score)
         in Inr score))))"

text \<open>
  \<^verbatim>\<open>findBestYouTubeTrailer\<close> (lines 868-881): score every video, keep the positive
  scores, sort by \<^verbatim>\<open>b.score - a.score\<close>, return the first.
\<close>

definition findBestYouTubeTrailer :: "ytVideo list \<Rightarrow> string \<Rightarrow> jsYear \<Rightarrow> error + ytVideo option" where
  "findBestYouTubeTrailer videos originalTitle year =
     (if videos = [] then Inr None
      else
        (case array_map (\<lambda>v. case calculateTrailerScore v originalTitle year of
                                Inl e \<Rightarrow> Inl e
                              | Inr s \<Rightarrow> Inr (v, s)) videos of
           Inl e \<Rightarrow> Inl e
         | Inr scored \<Rightarrow>
             (case array_sort (\<lambda>a b. Inr (snd b - snd a)) (filter (\<lambda>item. snd item > 0) scored) of
                Inl e \<Rightarrow> Inl e
              | Inr scoredVideos \<Rightarrow>
                  Inr (case scoredVideos of [] \<Rightarrow> None | first # rest \<Rightarrow> Some (fst first)))))"

text \<open>Lines 824-829: the four queries, as template literals.\<close>

definition trailerQueries :: "string \<Rightarrow> jsYear \<Rightarrow> string list" where
  "trailerQueries title' year =
     [title' @ '' '' @ year_toString year @ '' official trailer'',
      title' @ '' '' @ year_toString year @ '' trailer'',
      title' @ '' official trailer'',
      title' @ '' trailer'']"

text \<open>
  Lines 832-852: the loop over the queries. The provider is the parameter \<open>search\<close>, from
  the query to the items of the response or to a failure of the request. The first
  component of the result is the list of the queries that were sent, in order.
\<close>

fun tryQueries ::
  "(string \<Rightarrow> error + ytVideo list) \<Rightarrow> string \<Rightarrow> jsYear \<Rightarrow> string list
     \<Rightarrow> string list \<times> (error + ytVideo option)" where
  "tryQueries search title' year [] = ([], Inr None)"
| "tryQueries search title' year (query # later) =
     (case search query of
        Inl e \<Rightarrow> ([query], Inl e)
      | Inr items \<Rightarrow>
          (case (if items \<noteq> [] then findBestYouTubeTrailer items title' year else Inr None) of
             Inl e \<Rightarrow> ([query], Inl e)
           | Inr (Some bestTrailer) \<Rightarrow> ([query], Inr (Some bestTrailer))
           | Inr None \<Rightarrow>
               (case tryQueries search title' year later of
                  (sent, r) \<Rightarrow> (query # sent, r))))"

text \<open>
  \<^verbatim>\<open>searchYouTubeTrailer\<close> (lines 813-857): without an API key nothing is sent; the
  catch block turns every exception of the body into \<^verbatim>\<open>null\<close>.
\<close>

definition searchYouTubeTrailer_body ::
  "(string \<Rightarrow> error + ytVideo list) \<Rightarrow> (string \<Rightarrow> int option) \<Rightarrow> string \<Rightarrow> string option
     \<Rightarrow> string list \<times> (error + ytVideo option)" where
  "searchYouTubeTrailer_body search getFullYear title' releaseDate =
     (let year = yearOf getFullYear releaseDate
      in tryQueries search title' year (trailerQueries title' year))"

definition searchYouTubeTrailer ::
  "string option \<Rightarrow> (string \<Rightarrow> error + ytVideo list) \<Rightarrow> (string \<Rightarrow> int option)
     \<Rightarrow> string \<Rightarrow> string option \<Rightarrow> string list \<times> ytVideo option" where
  "searchYouTubeTrailer YOUTUBE_API_KEY search getFullYear title' releaseDate =
     (if YOUTUBE_API_KEY = None \<or> YOUTUBE_API_KEY = Some [] then ([], None)
      else (case searchYouTubeTrailer_body search getFullYear title' releaseDate of
              (sent, Inl e) \<Rightarrow> (sent, None)
            | (sent, Inr r) \<Rightarrow> (sent, r)))"

subsection \<open>The trailer field of a details response\<close>

record trailer =
  source :: string
  trailer_key :: string
  trailer_name :: "string option"
  trailer_site :: string
  url :: string

text \<open>
  \<^verbatim>\<open>getMovieDetailsWithTrailer\<close>, lines 654-684, after the details were fetched: the value
  assigned to \<^verbatim>\<open>movieData.trailer\<close>. \<open>videos\<close> is \<^verbatim>\<open>movieData.videos?.results || []\<close>. An
  exception that reaches the catch block of the function is thrown again as
  \<^verbatim>\<open>Failed to fetch movie details\<close>.
\<close>

definition movieTrailer ::
  "string option \<Rightarrow> (string \<Rightarrow> error + ytVideo list) \<Rightarrow> (string \<Rightarrow> int option)
     \<Rightarrow> video list \<Rightarrow> string \<Rightarrow> string option \<Rightarrow> error + trailer option" where
  "movieTrailer YOUTUBE_API_KEY search getFullYear videos title' releaseDate =
     (case getValidTMDBTrailer videos of
        Inl e \<Rightarrow> Inl (Failed ''Failed to fetch movie details'')
      | Inr (Some tmdbTrailer) \<Rightarrow>
          Inr (Some \<lparr>source = ''tmdb'', trailer_key = video_key tmdbTrailer,
                     trailer_name = video_name tmdbTrailer, trailer_site = video_site tmdbTrailer,
                     url = ''https://www.youtube.com/watch?v='' @ video_key tmdbTrailer\<rparr>)
      | Inr None \<Rightarrow>
          (case snd (searchYouTubeTrailer YOUTUBE_API_KEY search getFullYear title' releaseDate) of
             Some youtubeTrailer \<Rightarrow>
               Inr (Some \<lparr>source = ''youtube'', trailer_key = videoId youtubeTrailer,
                          trailer_name = snippet_title youtubeTrailer, trailer_site = ''YouTube'',
                          url = ''https://www.youtube.com/watch?v='' @ videoId youtubeTrailer\<rparr>)
           | None \<Rightarrow> Inr None))"

section \<open>Deduplication and the genre filter\<close>

text \<open>
  \<^verbatim>\<open>getUpcomingMovies\<close>, lines 224-226: a movie stays when its index is the first
  index of a movie with its id.
\<close>

definition uniqueMovies :: "media list \<Rightarrow> media list" where
  "uniqueMovies allMovies =
     map snd (filter (\<lambda>(index, movie).
                  int index = findIndex (\<lambda>m. item_id m = item_id movie) allMovies)
               (enumerate 0 allMovies))"

text \<open>
  \<^verbatim>\<open>getWatchAtHomeContent\<close>, lines 1005-1013: the loop with the set \<open>seen\<close> of the
  keys \<^verbatim>\<open>`${item.media_type}-${item.id}`\<close>.
\<close>

definition contentKey :: "media \<Rightarrow> string" where
  "contentKey item = template_str (media_type item) @ ''-'' @ num_toString (item_id item)"

fun uniqueContent_loop :: "media list \<Rightarrow> string set \<Rightarrow> media list \<Rightarrow> media list" where
  "uniqueContent_loop [] seen uniqueContent = uniqueContent"
| "uniqueContent_loop (item # rest) seen uniqueContent =
     (let key = contentKey item
      in if key \<notin> seen then uniqueContent_loop rest (insert key seen) (uniqueContent @ [item])
         else uniqueContent_loop rest seen uniqueContent)"

definition uniqueContent :: "media list \<Rightarrow> media list" where
  "uniqueContent shuffledContent = uniqueContent_loop shuffledContent {} []"

text \<open>Line 32, and the two genre filters: lines 139-143 and lines 992-993.\<close>

definition EXCLUDED_GENRE_IDS :: "int list" where
  "EXCLUDED_GENRE_IDS = [10767, 10763, 10764]"

definition filteredShows :: "media list \<Rightarrow> media list" where
  "filteredShows detailedShows =
     filter (\<lambda>show.
        case genres show of
          None \<Rightarrow> False
        | Some gs \<Rightarrow> \<not> list_ex (\<lambda>genre. genre \<in> set EXCLUDED_GENRE_IDS) gs) detailedShows"

definition tvShowsFiltered :: "media list \<Rightarrow> media list" where
  "tvShowsFiltered tvShowsDetailed =
     filter (\<lambda>item.
        \<not> (case genres item of
             None \<Rightarrow> False
           | Some gs \<Rightarrow> list_ex (\<lambda>genre. genre \<in> set EXCLUDED_GENRE_IDS) gs)) tvShowsDetailed"

section \<open>The trailer resolver in the words of its specification\<close>

text \<open>
  The primary lookup as the specification words it: among the videos hosted on YouTube,
  the first video that satisfies the earliest of five predicates that any video
  satisfies; the first video when none satisfies any; nothing when there is none. The
  name is compared in lower case, as the code does.
\<close>

definition nameContains :: "video \<Rightarrow> string \<Rightarrow> bool" where
  "nameContains v w = (case video_name v of None \<Rightarrow> False | Some n \<Rightarrow> sublist w (toLowerCase n))"

definition spec_predicates :: "(video \<Rightarrow> bool) list" where
  "spec_predicates =
     [\<lambda>v. video_type v = ''Trailer'' \<and> nameContains v ''official'',
      \<lambda>v. video_type v = ''Trailer'' \<and> nameContains v ''main'',
      \<lambda>v. video_type v = ''Trailer'',
      \<lambda>v. video_type v = ''Teaser'' \<and> nameContains v ''official'',
      \<lambda>v. video_type v = ''Teaser'']"

definition spec_primaryLookup :: "video list \<Rightarrow> video option" where
  "spec_primaryLookup videos =
     (let restricted = filter (\<lambda>v. video_site v = ''YouTube'') videos
      in case List.find (\<lambda>p. list_ex p restricted) spec_predicates of
           Some p \<Rightarrow> List.find p restricted
         | None \<Rightarrow> (case restricted of [] \<Rightarrow> None | v # rest \<Rightarrow> Some v))"

text \<open>
  The score of a search result as the specification words it, from the title, the
  description and the channel name of the video, the title of the movie or show and the
  release year, written in decimal digits when there is one; the number that a string
  of decimal digits denotes; and the outcome of one query: the failure of the request,
  or the best trailer among the items of the response.
\<close>

definition spec_trailerScore ::
  "string \<Rightarrow> string \<Rightarrow> string \<Rightarrow> string \<Rightarrow> string option \<Rightarrow> int" where
  "spec_trailerScore videoTitle videoDescription channel mediaTitle releaseYear =
     (if sublist (toLowerCase mediaTitle) (toLowerCase videoTitle) then 10 else 0)
     + (case releaseYear of
          None \<Rightarrow> 0
        | Some yearText \<Rightarrow>
            if sublist yearText (toLowerCase videoTitle) \<or>
               sublist yearText (toLowerCase videoDescription)
            then 5 else 0)
     + (if sublist ''official'' (toLowerCase videoTitle) then 8 else 0)
     + (if sublist ''trailer'' (toLowerCase videoTitle) then 6 else 0)
     + (if list_ex (\<lambda>known. sublist known (toLowerCase channel))
             [''netflix'', ''hbo'', ''amazon prime'', ''disney'', ''warner'']
        then 10 else 0)
     - (if sublist ''reaction'' (toLowerCase videoTitle) then 10 else 0)
     - (if sublist ''review'' (toLowerCase videoTitle) then 10 else 0)
     - (if sublist ''fan made'' (toLowerCase videoTitle) then 15 else 0)"

definition decimal_value :: "string \<Rightarrow> nat" where
  "decimal_value s = foldl (\<lambda>a c. 10 * a + (of_char c - 48)) 0 s"

definition queryOutcome ::
  "(string \<Rightarrow> error + ytVideo list) \<Rightarrow> string \<Rightarrow> jsYear \<Rightarrow> string \<Rightarrow> error + ytVideo option" where
  "queryOutcome search title' year query =
     (case search query of
        Inl e \<Rightarrow> Inl e
      | Inr items \<Rightarrow> findBestYouTubeTrailer items title' year)"

section \<open>Deduplication in the words of its specification\<close>

text \<open>
  The elements of a list that carry a key for the first time: the element at index \<open>i\<close>
  stays when its key is not in \<open>seen\<close> and no element before index \<open>i\<close> has it. The
  order of the list is kept.
\<close>

definition firstOccurrences :: "('a \<Rightarrow> 'k) \<Rightarrow> 'k set \<Rightarrow> 'a list \<Rightarrow> 'a list" where
  "firstOccurrences key seen xs =
     map (nth xs) (filter (\<lambda>i. key (xs ! i) \<notin> seen \<union> key ` set (take i xs)) [0..<length xs])"

section \<open>Example inputs\<close>

text \<open>A result object with every field the scoring reads, for the concrete instances below.\<close>

definition exampleItem :: "int \<Rightarrow> string \<Rightarrow> string option \<Rightarrow> media" where
  "exampleItem i t poster =
     \<lparr>item_id = i, media_type = None, title = Some t, name = Some t,
      release_date = Some ''2009-12-18'', first_air_date = Some ''2009-12-18'',
      poster_path = poster, popularity = Some 40, vote_average = Some 7,
      vote_count = Some 2000, genres = None\<rparr>"

definition exampleRated :: "int \<Rightarrow> string \<Rightarrow> real \<Rightarrow> media" where
  "exampleRated i t rating =
     \<lparr>item_id = i, media_type = None, title = Some t, name = None,
      release_date = None, first_air_date = None, poster_path = None,
      popularity = None, vote_average = Some rating, vote_count = Some 2000,
      genres = None\<rparr>"

text \<open>An arithmetic whose sums are rounded down to whole numbers and whose logarithm is 0.\<close>

definition coarse :: arith where
  "coarse = \<lparr>fl_log = (\<lambda>x. 0), fl_add = (\<lambda>x y. of_int \<lfloor>x + y\<rfloor>), fl_sub = (-),
             fl_mul = (*), fl_div = (/)\<rparr>"

definition exampleShow :: "int \<Rightarrow> string \<Rightarrow> string \<Rightarrow> media" where
  "exampleShow i n aired =
     \<lparr>item_id = i, media_type = None, title = None, name = Some n,
      release_date = None, first_air_date = Some aired,
      poster_path = Some ''/s.jpg'', popularity = Some 40, vote_average = Some 7,
      vote_count = Some 2000, genres = None\<rparr>"

definition exampleVideo :: "string \<Rightarrow> string \<Rightarrow> string \<Rightarrow> video" where
  "exampleVideo site ty n = \<lparr>video_site = site, video_type = ty, video_name = Some n, video_key = ''k''\<rparr>"

definition exampleYt :: "string \<Rightarrow> string \<Rightarrow> ytVideo" where
  "exampleYt t channel =
     \<lparr>videoId = ''dQw4'', snippet_title = Some t, snippet_description = Some [],
      snippet_channelTitle = Some channel\<rparr>"

text \<open>
  The title of a film with a letter outside ASCII, and the title of a video that writes
  it in capitals, followed by the year of the release.
\<close>

definition exampleTitle :: string where
  "exampleTitle = ''Am'' @ [CHR 0xE9] @ ''lie''"

definition exampleVideoTitle :: string where
  "exampleVideoTitle = ''AM'' @ [CHR 0xC9] @ ''LIE (2001) Official Trailer''"

section \<open>Properties of the string operations\<close>

text \<open>The two string tests are the prefix and the contiguous-substring relations.\<close>

lemma str_startsWith_prefix: "str_startsWith s t \<longleftrightarrow> prefix t s"
  by (induction s t rule: str_startsWith.induct) auto

lemma str_includes_sublist: "str_includes s t \<longleftrightarrow> sublist t s"
proof (induction s)
  case Nil
  then show ?case by simp
next
  case (Cons a s)
  show ?case
  proof (cases t)
    case Nil
    then show ?thesis by simp
  next
    case (Cons c t')
    then show ?thesis using Cons.IH
      by (simp add: str_startsWith_prefix sublist_Cons_right)
  qed
qed

lemma toLowerCase_Avatar:
  "toLowerCase ''Avatar'' = ''avatar''"
  "toLowerCase ''avatar'' = ''avatar''"
  "toLowerCase ''Avatar: The Way of Water'' = ''avatar: the way of water''"
  by (simp_all add: toLowerCase_def toLowerChar_def)

section \<open>The composite score\<close>

lemma count_fold:
  "fold (\<lambda>x m. if P x then m + 1 else m) xs (n::nat) = n + length (filter P xs)"
  by (induction xs arbitrary: n) auto

text \<open>The nested loops count the pairs of the Cartesian product of the two word lists.\<close>

lemma wordMatches_product:
  "wordMatches qs ts =
     length (filter (\<lambda>(qw, tw). str_includes tw qw \<or> str_includes qw tw) (List.product qs ts))"
proof -
  have "fold (\<lambda>queryWord n.
          fold (\<lambda>titleWord m.
            if str_includes titleWord queryWord \<or> str_includes queryWord titleWord
            then m + 1 else m) ts n) qs k
        = k + length (filter (\<lambda>(qw, tw). str_includes tw qw \<or> str_includes qw tw)
                       (List.product qs ts))"
    for k
    by (induction qs arbitrary: k) (auto simp: count_fold filter_map comp_def)
  then show ?thesis by (simp add: wordMatches_def)
qed

lemma popularityScore_mono:
  "0 < p \<Longrightarrow> p \<le> p' \<Longrightarrow> popularityScore (Some p) \<le> popularityScore (Some p')"
  by (simp add: popularityScore_def)

lemma popularityScore_mono_from_default:
  "1 \<le> p' \<Longrightarrow> popularityScore None \<le> popularityScore (Some p')
     \<and> popularityScore (Some 0) \<le> popularityScore (Some p')"
  by (simp add: popularityScore_def)

lemma qualityBonus_mono:
  "100 < c \<Longrightarrow> a \<le> a' \<Longrightarrow> qualityBonus (Some a) (Some c) \<le> qualityBonus (Some a') (Some c)"
  by (simp add: qualityBonus_def)

lemma qualityBonus_zero:
  "c \<le> 100 \<Longrightarrow> qualityBonus r (Some c) = 0"
  "qualityBonus r None = 0"
  "qualityBonus None v = 0"
  by (simp_all add: qualityBonus_def split: option.splits)

text \<open>
  Claim C1, as the code has it. The popularity term is \<open>ln (popularity || 1) * 50\<close>: it
  is \<open>ln (max popularity 1) * 50\<close> for an absent popularity, for 0 and from 1 upwards,
  and \<open>ln popularity * 50\<close>, a negative number, strictly between 0 and 1. With the title,
  the query and the other fields fixed, the score does not decrease when a positive
  popularity grows, nor when an absent or zero popularity becomes one of at least 1; it
  does not decrease when the rating grows while the vote count exceeds 100; and the
  quality term is 0 for a vote count of at most 100 or an absent one, whatever the
  rating.
\<close>

theorem calculateSmartScore_monotone:
  "popularityScore None = ln 1 * 50
   \<and> (p = 0 \<or> 1 \<le> p \<longrightarrow> popularityScore (Some p) = ln (max p 1) * 50)
   \<and> (0 < p \<longrightarrow> popularityScore (Some p) = ln p * 50)
   \<and> (0 < p \<and> p \<le> p' \<longrightarrow>
        (\<exists>s s'. calculateSmartScore (Some t) q (Some p) r v = Inr s
               \<and> calculateSmartScore (Some t) q (Some p') r v = Inr s' \<and> s \<le> s'))
   \<and> (1 \<le> p' \<longrightarrow>
        (\<exists>s0 s1 s'. calculateSmartScore (Some t) q None r v = Inr s0
               \<and> calculateSmartScore (Some t) q (Some 0) r v = Inr s1
               \<and> calculateSmartScore (Some t) q (Some p') r v = Inr s'
               \<and> s0 \<le> s' \<and> s1 \<le> s'))
   \<and> (100 < c \<and> a \<le> a' \<longrightarrow>
        (\<exists>s s'. calculateSmartScore (Some t) q pop (Some a) (Some c) = Inr s
               \<and> calculateSmartScore (Some t) q pop (Some a') (Some c) = Inr s' \<and> s \<le> s'))
   \<and> (c \<le> 100 \<longrightarrow> qualityBonus r (Some c) = 0)
   \<and> qualityBonus r None = 0"
proof -
  have p0: "popularityScore None = ln 1 * 50"
    "p = 0 \<or> 1 \<le> p \<Longrightarrow> popularityScore (Some p) = ln (max p 1) * 50"
    "0 < p \<Longrightarrow> popularityScore (Some p) = ln p * 50"
    by (auto simp: popularityScore_def max_def)
  show ?thesis
    using popularityScore_mono [of p p'] popularityScore_mono_from_default [of p']
      qualityBonus_mono [of c a a'] qualityBonus_zero(1) [of c r] qualityBonus_zero(2) [of r] p0
    by (simp add: calculateSmartScore_def Let_def)
qed

theorem calculateSmartScore_monotone_witness:
  "(\<exists>s s'. calculateSmartScore (Some ''Avatar'') ''avatar'' (Some 2) None None = Inr s
          \<and> calculateSmartScore (Some ''Avatar'') ''avatar'' (Some 3) None None = Inr s'
          \<and> s \<le> s')
   \<and> (\<exists>s s'. calculateSmartScore (Some ''Avatar'') ''avatar'' None (Some 5) (Some 150) = Inr s
          \<and> calculateSmartScore (Some ''Avatar'') ''avatar'' None (Some 8) (Some 150) = Inr s'
          \<and> s \<le> s')
   \<and> popularityScore (Some 2) = ln (max 2 1) * 50
   \<and> qualityBonus (Some 8) (Some 100) = 0"
proof -
  note a = calculateSmartScore_monotone [where p = 2 and p' = 3 and t = "''Avatar''"
      and q = "''avatar''" and r = None and v = None and c = 150 and a = 5 and a' = 8
      and pop = None]
  note b = calculateSmartScore_monotone [where c = 100 and r = "Some 8"]
  show ?thesis using a b by simp
qed

text \<open>
  The claim as the specification words it fails at popularity 1/2: the popularity term
  is \<open>ln (1/2) * 50\<close>, not \<open>ln (max (1/2) 1) * 50 = 0\<close>, and raising the popularity of
  an item from 0 to 1/2 lowers its score from 70 to less than 70.
\<close>

theorem popularity_below_one_counterexample:
  "popularityScore (Some (1/2)) \<noteq> ln (max (1/2) 1) * 50
   \<and> (0::real) \<le> 1/2
   \<and> calculateSmartScore (Some ''x'') ''x'' (Some 0) None None = Inr 70
   \<and> calculateSmartScore (Some ''x'') ''x'' (Some (1/2)) None None = Inr (ln (1/2) * 50 + 70)
   \<and> ln (1/2) * 50 + 70 < (70::real)"
proof -
  have neg: "ln (1/2 :: real) < 0" by (rule ln_less_zero) simp_all
  have a: "popularityScore (Some (1/2)) \<noteq> ln (max (1/2) 1) * 50"
    using neg by (simp add: popularityScore_def)
  have l: "toLowerCase ''x'' = ''x''" by (simp add: toLowerCase_def toLowerChar_def)
  have b: "calculateSmartScore (Some ''x'') ''x'' (Some 0) None None = Inr 70"
    by (simp add: calculateSmartScore_def l wordMatches_def isWhiteSpace_def
        popularityScore_def qualityBonus_def relevanceBonus_def)
  have c: "calculateSmartScore (Some ''x'') ''x'' (Some (1/2)) None None
            = Inr (ln (1/2) * 50 + 70)"
    by (simp add: calculateSmartScore_def l wordMatches_def isWhiteSpace_def
        popularityScore_def qualityBonus_def relevanceBonus_def)
  show ?thesis using a b c neg by simp
qed

text \<open>
  Claim C9. With a title that is a string, \<open>calculateSmartScore\<close> returns a score and
  raises nothing, whichever of popularity, rating and vote count are absent. An absent
  popularity contributes \<open>ln 1 * 50 = 0\<close>; an absent rating, an absent vote count or a
  vote count of at most 100 makes the quality term 0.
\<close>

theorem calculateSmartScore_missing_fields:
  "(\<exists>s. calculateSmartScore (Some t) q p r v = Inr s)
   \<and> popularityScore None = ln 1 * 50
   \<and> popularityScore None = 0
   \<and> qualityBonus None v = 0
   \<and> qualityBonus r None = 0
   \<and> (\<forall>c. c \<le> 100 \<longrightarrow> qualityBonus r (Some c) = 0)
   \<and> calculateSmartScore (Some t) q None None None =
        Inr (0 + 0 + relevanceBonus (toLowerCase t) (toLowerCase q)
             + real (wordMatches (split_ws (toLowerCase q)) (split_ws (toLowerCase t))) * 5)"
  by (auto simp: calculateSmartScore_def Let_def popularityScore_def qualityBonus_def
           split: option.splits)

theorem calculateSmartScore_missing_fields_witness:
  "(100::real) \<le> 100 \<and> qualityBonus (Some 9) (Some 100) = 0
   \<and> calculateSmartScore (Some ''Avatar'') ''avatar'' None None None = Inr 70"
proof -
  have "qualityBonus (Some 9) (Some 100) = 0"
    using calculateSmartScore_missing_fields [of "''Avatar''" "''avatar''" None "Some 9" None]
    by simp
  moreover have "calculateSmartScore (Some ''Avatar'') ''avatar'' None None None = Inr 70"
    using calculateSmartScore_missing_fields [of "''Avatar''" "''avatar''" None None None]
    by (simp add: toLowerCase_Avatar relevanceBonus_def wordMatches_def isWhiteSpace_def)
  ultimately show ?thesis by simp
qed

section \<open>Code points, words and lower case\<close>

text \<open>
  Lower case in code points: 32 is added to the capital letters of ASCII and of Latin-1,
  and nothing else moves.
\<close>

lemma toLowerChar_code_point:
  "(of_char (toLowerChar c) :: nat) =
     (if (65 \<le> (of_char c :: nat) \<and> (of_char c :: nat) \<le> 90)
         \<or> (192 \<le> (of_char c :: nat) \<and> (of_char c :: nat) \<le> 222 \<and> (of_char c :: nat) \<noteq> 215)
      then of_char c + 32 else of_char c)"
proof (cases c)
  case (Char b0 b1 b2 b3 b4 b5 b6 b7)
  show ?thesis
    unfolding Char
    by (cases b0; cases b1; cases b2; cases b3; cases b4; cases b5; cases b6; cases b7;
        simp add: toLowerChar_def)
qed

text \<open>
  White space in code points, and the words of a string one at a time: the first word
  ends at the first white-space character, and what follows the run of white space
  after it is split in the same way.
\<close>

lemma isWhiteSpace_code_point:
  "isWhiteSpace c = ((of_char c :: nat) \<in> {9, 10, 11, 12, 13, 32, 160})"
proof -
  have e: "(c = d) = ((of_char c :: nat) = of_char d)" for d
    by (simp add: inj_of_char [THEN inj_eq])
  show ?thesis
    unfolding isWhiteSpace_def by (simp add: e)
qed

lemma split_ws_words:
  "split_ws str =
     (let w = takeWhile (\<lambda>c. \<not> isWhiteSpace c) str;
          rest = dropWhile (\<lambda>c. \<not> isWhiteSpace c) str
      in if rest = [] then [w] else w # split_ws (dropWhile isWhiteSpace rest))"
proof (induction str)
  case Nil
  then show ?case by simp
next
  case (Cons c cs)
  show ?case
  proof (cases "isWhiteSpace c")
    case True
    then show ?thesis by simp
  next
    case False
    define w where "w = takeWhile (\<lambda>c. \<not> isWhiteSpace c) cs"
    define rest where "rest = dropWhile (\<lambda>c. \<not> isWhiteSpace c) cs"
    have ih: "split_ws cs = (if rest = [] then [w] else w # split_ws (dropWhile isWhiteSpace rest))"
      using Cons.IH by (simp add: Let_def w_def rest_def)
    have "split_ws (c # cs) = (case split_ws cs of [] \<Rightarrow> [[c]] | v # vs \<Rightarrow> (c # v) # vs)"
      using False by simp
    also have "\<dots> = (if rest = [] then [c # w] else (c # w) # split_ws (dropWhile isWhiteSpace rest))"
      unfolding ih by simp
    finally show ?thesis using False by (simp add: Let_def w_def rest_def)
  qed
qed

section \<open>Sorting and ranking\<close>

text \<open>
  With a comparator that never throws and whose result is at most 0 exactly when the
  key of its first argument is at most that of the second, \<open>array_sort\<close> is the
  library's stable sort by that key.
\<close>

lemma insort_cmp_key:
  fixes f :: "'a \<Rightarrow> 'k::linorder"
  assumes "\<And>y. y \<in> set ys \<Longrightarrow> \<exists>c. cmp x y = Inr c \<and> (c \<le> 0) = (f x \<le> f y)"
  shows "insort_cmp cmp x ys = Inr (insort_key f x ys)"
  using assms
proof (induction ys)
  case Nil
  then show ?case by simp
next
  case (Cons y ys)
  obtain c where c: "cmp x y = Inr c" "(c \<le> 0) = (f x \<le> f y)"
    using Cons.prems [of y] by auto
  have "insort_cmp cmp x ys = Inr (insort_key f x ys)"
    using Cons by simp
  then show ?case using c by simp
qed

lemma array_sort_key:
  fixes f :: "'a \<Rightarrow> 'k::linorder"
  assumes "\<And>x y. x \<in> set xs \<Longrightarrow> y \<in> set xs \<Longrightarrow>
             \<exists>c. cmp x y = Inr c \<and> (c \<le> 0) = (f x \<le> f y)"
  shows "array_sort cmp xs = Inr (sort_key f xs)"
  using assms
proof (induction xs)
  case Nil
  then show ?case by simp
next
  case (Cons x xs)
  have "array_sort cmp xs = Inr (sort_key f xs)"
    using Cons by simp
  moreover have "insort_cmp cmp x (sort_key f xs) = Inr (insort_key f x (sort_key f xs))"
    by (rule insort_cmp_key) (simp add: Cons.prems)
  ultimately show ?case by simp
qed

lemma sorted_desc_sort_key:
  fixes f :: "'a \<Rightarrow> 'n::linordered_idom"
  shows "sorted_wrt (\<lambda>a b. f b \<le> f a) (sort_key (\<lambda>z. - f z) xs)"
proof -
  have "sorted (map (\<lambda>z. - f z) (sort_key (\<lambda>z. - f z) xs))" by simp
  then show ?thesis by (simp add: sorted_map)
qed

lemma insort_cmp_mset:
  "insort_cmp cmp x ys = Inr zs \<Longrightarrow> mset zs = add_mset x (mset ys)"
  by (induction ys arbitrary: zs) (auto split: sum.splits if_splits)

lemma array_sort_mset:
  "array_sort cmp xs = Inr ys \<Longrightarrow> mset ys = mset xs"
  by (induction xs arbitrary: ys) (auto split: sum.splits dest: insort_cmp_mset)

lemma insort_cmp_total:
  assumes "\<And>y. y \<in> set ys \<Longrightarrow> \<exists>c. cmp x y = Inr c"
  shows "\<exists>zs. insort_cmp cmp x ys = Inr zs"
  using assms
proof (induction ys)
  case Nil
  then show ?case by simp
next
  case (Cons y ys)
  obtain c where c: "cmp x y = Inr c" using Cons.prems [of y] by auto
  obtain zs where "insort_cmp cmp x ys = Inr zs" using Cons by auto
  then show ?case using c by simp
qed

lemma array_sort_total:
  assumes "\<And>x y. x \<in> set xs \<Longrightarrow> y \<in> set xs \<Longrightarrow> \<exists>c. cmp x y = Inr c"
  shows "\<exists>ys. array_sort cmp xs = Inr ys"
  using assms
proof (induction xs)
  case Nil
  then show ?case by simp
next
  case (Cons x xs)
  obtain ys where ys: "array_sort cmp xs = Inr ys" using Cons by auto
  then have "set ys = set xs" by (metis array_sort_mset set_mset_mset)
  then have "\<exists>zs. insort_cmp cmp x ys = Inr zs"
    by (intro insort_cmp_total) (simp add: Cons.prems)
  then show ?case using ys by simp
qed

lemma array_sort_throws:
  assumes "z \<in> set xs" "2 \<le> length xs"
    and bad: "\<And>y. (\<exists>e. cmp z y = Inl e) \<and> (\<exists>e. cmp y z = Inl e)"
  shows "\<exists>e. array_sort cmp xs = Inl e"
  using assms(1,2)
proof (induction xs)
  case Nil
  then show ?case by simp
next
  case (Cons x xs)
  show ?case
  proof (cases "array_sort cmp xs")
    case (Inl e)
    then show ?thesis by simp
  next
    case (Inr ys)
    have m: "mset ys = mset xs" using Inr by (rule array_sort_mset)
    from Cons.prems have "xs \<noteq> []" by auto
    then obtain y ys' where ys: "ys = y # ys'"
      using m by (cases ys) auto
    show ?thesis
    proof (cases "z = x")
      case True
      then show ?thesis using Inr ys bad [of y] by auto
    next
      case False
      then have zin: "z \<in> set xs" using Cons.prems by simp
      have "\<not> 2 \<le> length xs" using Cons.IH [OF zin] Inr by auto
      then have "length xs \<le> 1" by simp
      then have "xs = [z]" using zin by (cases xs) auto
      then have "ys = [z]" using m by simp
      then show ?thesis using Inr bad [of x] by auto
    qed
  qed
qed

text \<open>
  The score in the arithmetic of the runtime: with exact arithmetic it is the exact
  score, its title bonuses can be read one by one, and the comparator of the ranking
  sorts by the computed score as soon as the sign of a computed difference is right.
\<close>

lemma ieee_double_exact: "ieee_double exact"
  by (simp add: ieee_double_def exact_def)

lemma calculateSmartScore_fl_exact:
  "calculateSmartScore_fl exact t q p r v = calculateSmartScore t q p r v"
  by (auto simp: calculateSmartScore_fl_def calculateSmartScore_def scoreAfterQuality_def
      scoreAfterRelevance_def popularityScore_def qualityBonus_def relevanceBonus_def exact_def
      Let_def split: option.splits)

lemma scoreAfterRelevance_independent:
  "scoreAfterRelevance ar s titleL queryL =
     (let s = (if sublist queryL titleL then fl_add ar s 30 else s);
          s = (if titleL = queryL then fl_add ar s 20 else s);
          s = (if prefix queryL titleL then fl_add ar s 15 else s)
      in s)"
proof -
  have "titleL = queryL \<Longrightarrow> sublist queryL titleL" by simp
  moreover have "prefix queryL titleL \<Longrightarrow> sublist queryL titleL" by (rule prefix_imp_sublist)
  ultimately show ?thesis
    by (auto simp: scoreAfterRelevance_def Let_def str_includes_sublist str_startsWith_prefix)
qed

lemma compareScores_key:
  assumes "smartScoreOf ar q a = Inr (f a)" "smartScoreOf ar q b = Inr (f b)"
    and "\<forall>x y. (fl_sub ar x y \<le> 0) = (x \<le> y)"
  shows "\<exists>c. compareScores ar q a b = Inr c \<and> (c \<le> 0) = (- f a \<le> - f b)"
  using assms by (simp add: compareScores_def)

lemma rankResults_sort_key:
  assumes "\<And>x. x \<in> set xs \<Longrightarrow> smartScoreOf ar q x = Inr (f x)"
    and "\<forall>x y. (fl_sub ar x y \<le> 0) = (x \<le> y)"
  shows "rankResults ar q xs = Inr (sort_key (\<lambda>z. - f z) xs)"
  unfolding rankResults_def
proof (rule array_sort_key)
  fix x y assume "x \<in> set xs" "y \<in> set xs"
  then show "\<exists>c. compareScores ar q x y = Inr c \<and> (c \<le> 0) = (- f x \<le> - f y)"
    using assms by (intro compareScores_key) simp_all
qed

lemma compareScores_throws:
  assumes "smartScoreOf ar q z = Inl e"
  shows "(\<exists>e. compareScores ar q z y = Inl e) \<and> (\<exists>e. compareScores ar q y z = Inl e)"
  using assms by (auto simp: compareScores_def split: sum.splits)

lemma smartScoreOf_titled:
  "title x \<noteq> None \<Longrightarrow> \<exists>s. smartScoreOf ar q x = Inr s"
  by (auto simp: smartScoreOf_def calculateSmartScore_fl_def Let_def)

lemma smartScoreOf_untitled:
  "title x = None \<Longrightarrow> smartScoreOf ar q x = Inl TypeError"
  by (auto simp: smartScoreOf_def calculateSmartScore_fl_def Let_def)

lemma rankResults_short:
  "length xs \<le> 1 \<Longrightarrow> rankResults ar q xs = Inr xs"
  by (cases xs) (auto simp: rankResults_def)

lemma rankResults_mset:
  "rankResults ar q xs = Inr ys \<Longrightarrow> mset ys = mset xs"
  unfolding rankResults_def by (rule array_sort_mset)

lemma rankResults_props:
  assumes "rankResults ar q xs = Inr ys"
    and sign: "\<forall>x y. (fl_sub ar x y \<le> 0) = (x \<le> y)"
  shows "sorted_wrt (\<lambda>a b. \<forall>sa sb. smartScoreOf ar q a = Inr sa \<and> smartScoreOf ar q b = Inr sb
                        \<longrightarrow> sb \<le> sa) ys"
    and "filter (\<lambda>x. smartScoreOf ar q x = k) ys = filter (\<lambda>x. smartScoreOf ar q x = k) xs"
proof -
  have m: "mset ys = mset xs"
    using assms(1) by (rule rankResults_mset)
  consider (short) "length xs \<le> 1" | (good) "\<forall>x\<in>set xs. \<exists>s. smartScoreOf ar q x = Inr s"
  proof (cases "\<forall>x\<in>set xs. \<exists>s. smartScoreOf ar q x = Inr s")
    case True
    then show ?thesis using that by blast
  next
    case False
    then obtain z e where z: "z \<in> set xs" "smartScoreOf ar q z = Inl e"
      by (metis sum.exhaust)
    have "\<not> 2 \<le> length xs"
      using array_sort_throws [of z xs "compareScores ar q"] z compareScores_throws [OF z(2)]
        assms(1)
      by (auto simp: rankResults_def)
    then show ?thesis using that by simp
  qed
  then have "sorted_wrt (\<lambda>a b. \<forall>sa sb. smartScoreOf ar q a = Inr sa \<and> smartScoreOf ar q b = Inr sb
                        \<longrightarrow> sb \<le> sa) ys
     \<and> filter (\<lambda>x. smartScoreOf ar q x = k) ys = filter (\<lambda>x. smartScoreOf ar q x = k) xs"
  proof cases
    case short
    then have "ys = xs" using assms(1) rankResults_short [of xs ar q] by simp
    moreover have "sorted_wrt P xs" for P :: "media \<Rightarrow> media \<Rightarrow> bool"
      using short by (cases xs) auto
    ultimately show ?thesis by simp
  next
    case good
    define f where "f x = projr (smartScoreOf ar q x)" for x
    have fx: "smartScoreOf ar q x = Inr (f x)" if "x \<in> set xs" for x
      using good that by (auto simp: f_def)
    have ys: "ys = sort_key (\<lambda>z. - f z) xs"
      using rankResults_sort_key [of xs ar q f] fx sign assms(1) by simp
    have s: "sorted_wrt (\<lambda>a b. f b \<le> f a) ys"
      unfolding ys by (rule sorted_desc_sort_key)
    have setys: "set ys = set xs" using m by (metis set_mset_mset)
    have 1: "sorted_wrt (\<lambda>a b. \<forall>sa sb. smartScoreOf ar q a = Inr sa \<and> smartScoreOf ar q b = Inr sb
                        \<longrightarrow> sb \<le> sa) ys"
      by (rule sorted_wrt_mono_rel [OF _ s]) (auto simp: setys fx)
    have 2: "filter (\<lambda>x. smartScoreOf ar q x = k) ys = filter (\<lambda>x. smartScoreOf ar q x = k) xs"
    proof (cases k)
      case (Inl e)
      have "filter (\<lambda>x. smartScoreOf ar q x = k) ys = []"
        "filter (\<lambda>x. smartScoreOf ar q x = k) xs = []"
        using fx Inl by (auto simp: filter_empty_conv setys)
      then show ?thesis by simp
    next
      case (Inr s)
      have "filter (\<lambda>x. smartScoreOf ar q x = k) ys = filter (\<lambda>x. - f x = - s) ys"
        by (rule filter_cong) (auto simp: Inr fx setys)
      also have "\<dots> = filter (\<lambda>x. - f x = - s) xs"
        unfolding ys by (rule sort_key_stable)
      also have "\<dots> = filter (\<lambda>x. smartScoreOf ar q x = k) xs"
        by (rule filter_cong) (auto simp: Inr fx)
      finally show ?thesis .
    qed
    show ?thesis using 1 2 by simp
  qed
  then show "sorted_wrt (\<lambda>a b. \<forall>sa sb. smartScoreOf ar q a = Inr sa \<and> smartScoreOf ar q b = Inr sb
                        \<longrightarrow> sb \<le> sa) ys"
    and "filter (\<lambda>x. smartScoreOf ar q x = k) ys = filter (\<lambda>x. smartScoreOf ar q x = k) xs"
    by simp_all
qed

lemma rankResults_untitled:
  assumes "z \<in> set xs" "title z = None" "2 \<le> length xs"
  shows "\<exists>e. rankResults ar q xs = Inl e"
  unfolding rankResults_def
  using assms(1,3)
  by (rule array_sort_throws) (rule compareScores_throws [OF smartScoreOf_untitled [OF assms(2)]])

lemma rankResults_total:
  assumes "\<forall>x\<in>set xs. title x \<noteq> None"
  shows "\<exists>ys. rankResults ar q xs = Inr ys"
  unfolding rankResults_def
proof (rule array_sort_total)
  fix x y assume "x \<in> set xs" "y \<in> set xs"
  then obtain sx sy where "smartScoreOf ar q x = Inr sx" "smartScoreOf ar q y = Inr sy"
    using assms smartScoreOf_titled by blast
  then show "\<exists>c. compareScores ar q x y = Inr c" by (simp add: compareScores_def)
qed

text \<open>Two scores that differ by a bonus of 20 stay apart when the sums round.\<close>

lemma fl_add_close:
  assumes "ieee_double ar" "\<bar>x + y\<bar> \<le> 2000000000000000"
  shows "\<bar>fl_add ar x y - (x + y)\<bar> \<le> 1 / 4"
proof -
  have "\<bar>fl_add ar x y - (x + y)\<bar> \<le> \<bar>x + y\<bar> / 2 ^ 53"
    using assms(1) by (simp add: ieee_double_def)
  also have "\<dots> \<le> 2000000000000000 / 2 ^ 53"
    using assms(2) by (simp add: divide_right_mono)
  also have "\<dots> \<le> (1 / 4 :: real)" by simp
  finally show ?thesis .
qed

lemma exact_match_beats_prefix_match:
  assumes i: "ieee_double ar" and b: "\<bar>s\<bar> \<le> 10 ^ 15"
  shows "fl_add ar (fl_add ar (fl_add ar s 30) 15) (fl_mul ar 1 5)
       < fl_add ar (fl_add ar (fl_add ar (fl_add ar s 30) 20) 15) (fl_mul ar 1 5)"
proof -
  have "(Suc 0) * 5 < (2::nat) ^ 53" by simp
  then have "fl_mul ar (real (Suc 0)) (real 5) = real (Suc 0 * 5)"
    using i unfolding ieee_double_def by blast
  then have m: "fl_mul ar 1 5 = 5" by simp
  have b: "\<bar>s\<bar> \<le> 1000000000000000" using b by simp
  define a1 where "a1 = fl_add ar s 30"
  define a2 where "a2 = fl_add ar a1 20"
  define a3 where "a3 = fl_add ar a2 15"
  define sa where "sa = fl_add ar a3 5"
  define b3 where "b3 = fl_add ar a1 15"
  define sb where "sb = fl_add ar b3 5"
  have e1: "\<bar>a1 - (s + 30)\<bar> \<le> 1 / 4"
    unfolding a1_def using b by (intro fl_add_close [OF i]) linarith
  have e2: "\<bar>a2 - (a1 + 20)\<bar> \<le> 1 / 4"
    unfolding a2_def using b e1 by (intro fl_add_close [OF i]) linarith
  have e3: "\<bar>a3 - (a2 + 15)\<bar> \<le> 1 / 4"
    unfolding a3_def using b e1 e2 by (intro fl_add_close [OF i]) linarith
  have e4: "\<bar>sa - (a3 + 5)\<bar> \<le> 1 / 4"
    unfolding sa_def using b e1 e2 e3 by (intro fl_add_close [OF i]) linarith
  have f3: "\<bar>b3 - (a1 + 15)\<bar> \<le> 1 / 4"
    unfolding b3_def using b e1 by (intro fl_add_close [OF i]) linarith
  have f4: "\<bar>sb - (b3 + 5)\<bar> \<le> 1 / 4"
    unfolding sb_def using b e1 f3 by (intro fl_add_close [OF i]) linarith
  have "sb < sa" using e2 e3 e4 f3 f4 by linarith
  then show ?thesis
    by (simp add: m sa_def sb_def a3_def a2_def a1_def b3_def)
qed

lemma calculateSmartScore_examples:
  "calculateSmartScore (Some ''Iron Man 3'') ''iron man'' None None None = Inr 55"
  "calculateSmartScore (Some ''Man'') ''man  man'' None None None = Inr 10"
  "calculateSmartScore (Some ''Iron Man'') '' man'' None None None = Inr 45"
  "calculateSmartScore (Some ''Iron Man'') [CHR ''i'', CHR ''r'', CHR ''o'', CHR ''n'', CHR 0x09, CHR 0x0A, CHR ''m'', CHR ''a'', CHR ''n''] None None None
     = Inr 10"
  "calculateSmartScore (Some [CHR 0xC9]) [CHR 0xE9] None None None = Inr 70"
  "calculateSmartScore (Some ''Avatar'') ''avatar'' None None None = Inr 70"
  by (simp_all add: calculateSmartScore_def toLowerCase_def toLowerChar_def
      popularityScore_def qualityBonus_def relevanceBonus_def wordMatches_def isWhiteSpace_def)

lemma avatar_scores:
  assumes "title a = Some ''Avatar''" "title b = Some ''Avatar: The Way of Water''"
    "popularity a = popularity b" "vote_average a = vote_average b" "vote_count a = vote_count b"
  shows "smartScoreOf ar ''avatar'' a =
           Inr (fl_add ar (fl_add ar (fl_add ar (fl_add ar
                  (scoreAfterQuality ar (popularity a) (vote_average a) (vote_count a)) 30) 20) 15)
                  (fl_mul ar 1 5))"
    and "smartScoreOf ar ''avatar'' b =
           Inr (fl_add ar (fl_add ar (fl_add ar
                  (scoreAfterQuality ar (popularity a) (vote_average a) (vote_count a)) 30) 15)
                  (fl_mul ar 1 5))"
proof -
  show "smartScoreOf ar ''avatar'' a =
           Inr (fl_add ar (fl_add ar (fl_add ar (fl_add ar
                  (scoreAfterQuality ar (popularity a) (vote_average a) (vote_count a)) 30) 20) 15)
                  (fl_mul ar 1 5))"
    by (simp add: smartScoreOf_def calculateSmartScore_fl_def assms(1) toLowerCase_Avatar
        scoreAfterRelevance_def wordMatches_def isWhiteSpace_def)
  show "smartScoreOf ar ''avatar'' b =
           Inr (fl_add ar (fl_add ar (fl_add ar
                  (scoreAfterQuality ar (popularity a) (vote_average a) (vote_count a)) 30) 15)
                  (fl_mul ar 1 5))"
    by (simp add: smartScoreOf_def calculateSmartScore_fl_def assms(2) assms(3-5) [symmetric]
        toLowerCase_Avatar scoreAfterRelevance_def wordMatches_def isWhiteSpace_def)
qed

lemma rank_two:
  assumes "smartScoreOf ar q a = Inr sa" "smartScoreOf ar q b = Inr sb" "sb < sa"
    and "\<forall>x y. (fl_sub ar x y \<le> 0) = (x \<le> y)"
  shows "rankResults ar q [b, a] = Inr [a, b]" "rankResults ar q [a, b] = Inr [a, b]"
  using assms by (simp_all add: rankResults_def compareScores_def)

lemma avatar_ranked_first:
  assumes t: "title a = Some ''Avatar''" "title b = Some ''Avatar: The Way of Water''"
    "popularity a = popularity b" "vote_average a = vote_average b" "vote_count a = vote_count b"
    and i: "ieee_double ar"
    and m: "\<bar>scoreAfterQuality ar (popularity a) (vote_average a) (vote_count a)\<bar> \<le> 10 ^ 15"
  shows "(\<exists>sa sb. smartScoreOf ar ''avatar'' a = Inr sa \<and> smartScoreOf ar ''avatar'' b = Inr sb
                \<and> sb < sa)
        \<and> rankResults ar ''avatar'' [b, a] = Inr [a, b]
        \<and> rankResults ar ''avatar'' [a, b] = Inr [a, b]"
proof -
  note s = avatar_scores [OF t, of ar]
  note lt = exact_match_beats_prefix_match [OF i m]
  have sign: "\<forall>x y. (fl_sub ar x y \<le> 0) = (x \<le> y)"
    using i by (simp add: ieee_double_def)
  show ?thesis
    using s lt rank_two [OF s(1) s(2) lt sign] by blast
qed

lemma avatar_ranked_first_exact:
  assumes t: "title a = Some ''Avatar''" "title b = Some ''Avatar: The Way of Water''"
    "popularity a = popularity b" "vote_average a = vote_average b" "vote_count a = vote_count b"
  shows "(\<exists>sa sb. smartScoreOf exact ''avatar'' a = Inr sa \<and> smartScoreOf exact ''avatar'' b = Inr sb
                \<and> sb < sa)
        \<and> rankResults exact ''avatar'' [b, a] = Inr [a, b]
        \<and> rankResults exact ''avatar'' [a, b] = Inr [a, b]"
proof -
  note s = avatar_scores [OF t, of exact]
  have lt: "fl_add exact (fl_add exact (fl_add exact
                  (scoreAfterQuality exact (popularity a) (vote_average a) (vote_count a)) 30) 15)
                  (fl_mul exact 1 5)
          < fl_add exact (fl_add exact (fl_add exact (fl_add exact
                  (scoreAfterQuality exact (popularity a) (vote_average a) (vote_count a)) 30) 20) 15)
                  (fl_mul exact 1 5)"
    by (simp add: exact_def)
  have sign: "\<forall>x y. (fl_sub exact x y \<le> 0) = (x \<le> y)"
    by (simp add: exact_def)
  show ?thesis
    using s lt rank_two [OF s(1) s(2) lt sign] by blast
qed

text \<open>
  Claim C2. The title-relevance part of the score is a sum of independent bonuses: 30
  when the lower-cased title contains the lower-cased query, 20 when the two are equal,
  15 when the title starts with the query, and 5 for every pair of a query word and a
  title word of which one contains the other. The score in the arithmetic of the
  runtime adds the same bonuses one after the other, and is the exact score when the
  arithmetic is exact. The words of a string are the pieces between its runs of white
  space, with an empty piece before a leading and after a trailing run; white space is
  the code points 9 to 13, 32 and 160; lower case adds 32 to the code points of \<^verbatim>\<open>A\<close> to
  \<^verbatim>\<open>Z\<close> and of the capital letters from 192 to 222, 215 excepted, and leaves every other
  character. So \<^verbatim>\<open>iron man\<close> scores 30 + 15 and two pairs against \<^verbatim>\<open>Iron Man 3\<close>, a query
  that begins with a blank has an empty first word that every title word contains, and
  a capital E with an acute accent matches the small one exactly. For the query
  \<^verbatim>\<open>avatar\<close> and the title \<^verbatim>\<open>Avatar\<close> the three bonuses add up to 65, and an item with
  that title is ranked before one titled \<^verbatim>\<open>Avatar: The Way of Water\<close> with the same
  popularity, rating and vote count, whatever their order of arrival: in exact
  arithmetic, and in every arithmetic that rounds as doubles do, as long as the score
  before the title bonuses is at most \<open>10 ^ 15\<close> in absolute value.
\<close>

theorem title_relevance_additive:
  "calculateSmartScore (Some t) q p r v =
     Inr (popularityScore p + qualityBonus r v
          + ((if sublist (toLowerCase q) (toLowerCase t) then 30 else 0)
             + (if toLowerCase t = toLowerCase q then 20 else 0)
             + (if prefix (toLowerCase q) (toLowerCase t) then 15 else 0)
             + 5 * real (length (filter (\<lambda>(qw, tw). sublist qw tw \<or> sublist tw qw)
                   (List.product (split_ws (toLowerCase q)) (split_ws (toLowerCase t)))))))
   \<and> calculateSmartScore_fl ar (Some t) q p r v =
       Inr (fl_add ar
              (let s = scoreAfterQuality ar p r v;
                   s = (if sublist (toLowerCase q) (toLowerCase t) then fl_add ar s 30 else s);
                   s = (if toLowerCase t = toLowerCase q then fl_add ar s 20 else s);
                   s = (if prefix (toLowerCase q) (toLowerCase t) then fl_add ar s 15 else s)
               in s)
              (fl_mul ar
                 (real (length (filter (\<lambda>(qw, tw). sublist qw tw \<or> sublist tw qw)
                    (List.product (split_ws (toLowerCase q)) (split_ws (toLowerCase t)))))) 5))
   \<and> calculateSmartScore_fl exact (Some t) q p r v = calculateSmartScore (Some t) q p r v
   \<and> split_ws str =
       (let w = takeWhile (\<lambda>c. \<not> isWhiteSpace c) str;
            rest = dropWhile (\<lambda>c. \<not> isWhiteSpace c) str
        in if rest = [] then [w] else w # split_ws (dropWhile isWhiteSpace rest))
   \<and> isWhiteSpace c = ((of_char c :: nat) \<in> {9, 10, 11, 12, 13, 32, 160})
   \<and> toLowerCase str = map toLowerChar str
   \<and> (of_char (toLowerChar c) :: nat) =
       (if (65 \<le> (of_char c :: nat) \<and> (of_char c :: nat) \<le> 90)
           \<or> (192 \<le> (of_char c :: nat) \<and> (of_char c :: nat) \<le> 222
               \<and> (of_char c :: nat) \<noteq> 215)
        then of_char c + 32 else of_char c)
   \<and> calculateSmartScore (Some ''Iron Man 3'') ''iron man'' None None None = Inr (30 + 15 + 2 * 5)
   \<and> calculateSmartScore (Some ''Man'') ''man  man'' None None None = Inr (2 * 5)
   \<and> calculateSmartScore (Some ''Iron Man'') '' man'' None None None = Inr (30 + 3 * 5)
   \<and> calculateSmartScore (Some ''Iron Man'') [CHR ''i'', CHR ''r'', CHR ''o'', CHR ''n'', CHR 0x09, CHR 0x0A, CHR ''m'', CHR ''a'', CHR ''n'']
        None None None = Inr (2 * 5)
   \<and> calculateSmartScore (Some [CHR 0xC9]) [CHR 0xE9] None None None = Inr (30 + 20 + 15 + 5)
   \<and> calculateSmartScore (Some ''Avatar'') ''avatar'' None None None = Inr (30 + 20 + 15 + 5)
   \<and> relevanceBonus (toLowerCase ''Avatar'') (toLowerCase ''avatar'') = 30 + 20 + 15
   \<and> (title a = Some ''Avatar'' \<and> title b = Some ''Avatar: The Way of Water''
        \<and> popularity a = popularity b \<and> vote_average a = vote_average b
        \<and> vote_count a = vote_count b \<longrightarrow>
        (\<exists>sa sb. smartScoreOf exact ''avatar'' a = Inr sa
                \<and> smartScoreOf exact ''avatar'' b = Inr sb \<and> sb < sa)
        \<and> rankResults exact ''avatar'' [b, a] = Inr [a, b]
        \<and> rankResults exact ''avatar'' [a, b] = Inr [a, b])
   \<and> (title a = Some ''Avatar'' \<and> title b = Some ''Avatar: The Way of Water''
        \<and> popularity a = popularity b \<and> vote_average a = vote_average b
        \<and> vote_count a = vote_count b \<and> ieee_double ar
        \<and> \<bar>scoreAfterQuality ar (popularity a) (vote_average a) (vote_count a)\<bar> \<le> 10 ^ 15 \<longrightarrow>
        (\<exists>sa sb. smartScoreOf ar ''avatar'' a = Inr sa
                \<and> smartScoreOf ar ''avatar'' b = Inr sb \<and> sb < sa)
        \<and> rankResults ar ''avatar'' [b, a] = Inr [a, b]
        \<and> rankResults ar ''avatar'' [a, b] = Inr [a, b])"
proof -
  have c1: "calculateSmartScore (Some t) q p r v =
     Inr (popularityScore p + qualityBonus r v
          + ((if sublist (toLowerCase q) (toLowerCase t) then 30 else 0)
             + (if toLowerCase t = toLowerCase q then 20 else 0)
             + (if prefix (toLowerCase q) (toLowerCase t) then 15 else 0)
             + 5 * real (length (filter (\<lambda>(qw, tw). sublist qw tw \<or> sublist tw qw)
                   (List.product (split_ws (toLowerCase q)) (split_ws (toLowerCase t)))))))"
    by (auto simp: calculateSmartScore_def Let_def relevanceBonus_def wordMatches_product
        str_includes_sublist str_startsWith_prefix)
  have c2: "calculateSmartScore_fl ar (Some t) q p r v =
       Inr (fl_add ar
              (let s = scoreAfterQuality ar p r v;
                   s = (if sublist (toLowerCase q) (toLowerCase t) then fl_add ar s 30 else s);
                   s = (if toLowerCase t = toLowerCase q then fl_add ar s 20 else s);
                   s = (if prefix (toLowerCase q) (toLowerCase t) then fl_add ar s 15 else s)
               in s)
              (fl_mul ar
                 (real (length (filter (\<lambda>(qw, tw). sublist qw tw \<or> sublist tw qw)
                    (List.product (split_ws (toLowerCase q)) (split_ws (toLowerCase t)))))) 5))"
    unfolding calculateSmartScore_fl_def scoreAfterRelevance_independent wordMatches_product
    by (simp add: Let_def str_includes_sublist)
  have c3: "calculateSmartScore_fl exact (Some t) q p r v = calculateSmartScore (Some t) q p r v"
    by (rule calculateSmartScore_fl_exact)
  have c4: "relevanceBonus (toLowerCase ''Avatar'') (toLowerCase ''avatar'') = 30 + 20 + 15"
    by (simp add: toLowerCase_Avatar relevanceBonus_def)
  have p1: "split_ws str =
       (let w = takeWhile (\<lambda>c. \<not> isWhiteSpace c) str;
            rest = dropWhile (\<lambda>c. \<not> isWhiteSpace c) str
        in if rest = [] then [w] else w # split_ws (dropWhile isWhiteSpace rest))"
    by (rule split_ws_words)
  have p2: "isWhiteSpace c = ((of_char c :: nat) \<in> {9, 10, 11, 12, 13, 32, 160})"
    by (rule isWhiteSpace_code_point)
  have p3: "toLowerCase str = map toLowerChar str"
    by (rule toLowerCase_def)
  have p4: "(of_char (toLowerChar c) :: nat) =
       (if (65 \<le> (of_char c :: nat) \<and> (of_char c :: nat) \<le> 90)
           \<or> (192 \<le> (of_char c :: nat) \<and> (of_char c :: nat) \<le> 222
               \<and> (of_char c :: nat) \<noteq> 215)
        then of_char c + 32 else of_char c)"
    by (rule toLowerChar_code_point)
  have e1: "calculateSmartScore (Some ''Iron Man 3'') ''iron man'' None None None
              = Inr (30 + 15 + 2 * 5)"
    and e2: "calculateSmartScore (Some ''Man'') ''man  man'' None None None = Inr (2 * 5)"
    and e3: "calculateSmartScore (Some ''Iron Man'') '' man'' None None None = Inr (30 + 3 * 5)"
    and e4: "calculateSmartScore (Some ''Iron Man'') [CHR ''i'', CHR ''r'', CHR ''o'', CHR ''n'', CHR 0x09, CHR 0x0A, CHR ''m'', CHR ''a'', CHR ''n'']
        None None None = Inr (2 * 5)"
    and e5: "calculateSmartScore (Some [CHR 0xC9]) [CHR 0xE9] None None None
              = Inr (30 + 20 + 15 + 5)"
    and e6: "calculateSmartScore (Some ''Avatar'') ''avatar'' None None None
              = Inr (30 + 20 + 15 + 5)"
    by (simp_all add: calculateSmartScore_examples)
  have r1: "title a = Some ''Avatar'' \<and> title b = Some ''Avatar: The Way of Water''
        \<and> popularity a = popularity b \<and> vote_average a = vote_average b
        \<and> vote_count a = vote_count b \<longrightarrow>
        (\<exists>sa sb. smartScoreOf exact ''avatar'' a = Inr sa
                \<and> smartScoreOf exact ''avatar'' b = Inr sb \<and> sb < sa)
        \<and> rankResults exact ''avatar'' [b, a] = Inr [a, b]
        \<and> rankResults exact ''avatar'' [a, b] = Inr [a, b]"
    using avatar_ranked_first_exact [of a b] by (intro impI) (elim conjE, simp)
  have r2: "title a = Some ''Avatar'' \<and> title b = Some ''Avatar: The Way of Water''
        \<and> popularity a = popularity b \<and> vote_average a = vote_average b
        \<and> vote_count a = vote_count b \<and> ieee_double ar
        \<and> \<bar>scoreAfterQuality ar (popularity a) (vote_average a) (vote_count a)\<bar> \<le> 10 ^ 15 \<longrightarrow>
        (\<exists>sa sb. smartScoreOf ar ''avatar'' a = Inr sa
                \<and> smartScoreOf ar ''avatar'' b = Inr sb \<and> sb < sa)
        \<and> rankResults ar ''avatar'' [b, a] = Inr [a, b]
        \<and> rankResults ar ''avatar'' [a, b] = Inr [a, b]"
    using avatar_ranked_first [of a b ar] by (intro impI) (elim conjE, simp)
  show ?thesis
    by (intro conjI;
        (fact c1 | fact c2 | fact c3 | fact c4 | fact p1 | fact p2 | fact p3 | fact p4
         | fact e1 | fact e2 | fact e3 | fact e4 | fact e5 | fact e6 | fact r1 | fact r2))
qed

theorem title_relevance_additive_witness:
  "rankResults exact ''avatar''
     [exampleRated 2 ''Avatar: The Way of Water'' 7, exampleRated 1 ''Avatar'' 7]
   = Inr [exampleRated 1 ''Avatar'' 7, exampleRated 2 ''Avatar: The Way of Water'' 7]"
proof -
  let ?a = "exampleRated 1 ''Avatar'' 7" and ?b = "exampleRated 2 ''Avatar: The Way of Water'' 7"
  have h: "title ?a = Some ''Avatar'' \<and> title ?b = Some ''Avatar: The Way of Water''
        \<and> popularity ?a = popularity ?b \<and> vote_average ?a = vote_average ?b
        \<and> vote_count ?a = vote_count ?b \<and> ieee_double exact
        \<and> \<bar>scoreAfterQuality exact (popularity ?a) (vote_average ?a) (vote_count ?a)\<bar> \<le> 10 ^ 15"
    using ieee_double_exact by (simp add: exampleRated_def scoreAfterQuality_def exact_def)
  note t = title_relevance_additive [where a = ?a and b = ?b and ar = exact,
      THEN conjunct2, THEN conjunct2, THEN conjunct2, THEN conjunct2, THEN conjunct2,
      THEN conjunct2, THEN conjunct2, THEN conjunct2, THEN conjunct2, THEN conjunct2,
      THEN conjunct2, THEN conjunct2, THEN conjunct2, THEN conjunct2, THEN conjunct2, THEN mp, OF h]
  then show ?thesis by blast
qed

text \<open>
  Two items that differ in the rating alone: their exact scores differ, and the
  arithmetic that rounds sums down to whole numbers gives both the same score.
\<close>

lemma coarse_scores:
  "smartScoreOf coarse ''avatar'' (exampleRated i ''Avatar'' 7) = Inr 84"
  "smartScoreOf coarse ''avatar'' (exampleRated i ''Avatar'' (176 / 25)) = Inr 84"
  "smartScoreOf coarse ''avatar'' (exampleRated i ''Avatar: The Way of Water'' 7) = Inr 64"
  by (simp_all add: smartScoreOf_def calculateSmartScore_fl_def exampleRated_def
      toLowerCase_Avatar scoreAfterQuality_def scoreAfterRelevance_def wordMatches_def
      isWhiteSpace_def coarse_def)

lemma exact_scores:
  "smartScoreOf exact ''avatar'' (exampleRated i ''Avatar'' 7) = Inr 84"
  "smartScoreOf exact ''avatar'' (exampleRated i ''Avatar'' (176 / 25)) = Inr (2102 / 25)"
  "smartScoreOf exact ''avatar'' (exampleRated i ''Avatar: The Way of Water'' 7) = Inr 64"
  by (simp_all add: smartScoreOf_def calculateSmartScore_fl_def exampleRated_def
      toLowerCase_Avatar scoreAfterQuality_def scoreAfterRelevance_def wordMatches_def
      isWhiteSpace_def exact_def)

text \<open>
  Claim C8. The ranking of \<open>searchMoviesAndTV\<close> is a stable descending sort by the score
  as the runtime computes it, whatever the rounding of its arithmetic. The empty list is
  ranked to the empty list, every list whose items have a title is ranked, and the
  result is a permutation of the input, of which the search returns the first 20. When
  the computed difference of two scores is at most 0 exactly if the first is at most the
  second, as it is for doubles, then no item precedes one with a higher computed score,
  and the items of any one computed score stand in the order of arrival, which is the
  movies before the TV shows, each in the order of the provider.
\<close>

theorem rankResults_stable:
  "rankResults ar q [] = Inr []
   \<and> ((\<forall>x\<in>set xs. title x \<noteq> None) \<longrightarrow> (\<exists>zs. rankResults ar q xs = Inr zs))
   \<and> (rankResults ar q xs = Inr ys \<longrightarrow>
        mset ys = mset xs
        \<and> (xs = map processMovie ms @ map processTV tvs \<longrightarrow>
             searchMoviesAndTV ar q (Inr ms) (Inr tvs) = Inr (take 20 ys)))
   \<and> ((\<forall>x y. (fl_sub ar x y \<le> 0) = (x \<le> y)) \<and> rankResults ar q xs = Inr ys \<longrightarrow>
        sorted_wrt (\<lambda>a b. \<forall>sa sb. smartScoreOf ar q a = Inr sa \<and> smartScoreOf ar q b = Inr sb
                          \<longrightarrow> sb \<le> sa) ys
        \<and> (\<forall>k. filter (\<lambda>x. smartScoreOf ar q x = k) ys
               = filter (\<lambda>x. smartScoreOf ar q x = k) xs)
        \<and> (xs = map processMovie ms @ map processTV tvs \<longrightarrow>
             (\<forall>k. filter (\<lambda>x. smartScoreOf ar q x = k) ys
                    = filter (\<lambda>x. smartScoreOf ar q x = k) (map processMovie ms)
                      @ filter (\<lambda>x. smartScoreOf ar q x = k) (map processTV tvs))))"
proof -
  have a: "rankResults ar q [] = Inr []" by (simp add: rankResults_def)
  have b: "(\<forall>x\<in>set xs. title x \<noteq> None) \<longrightarrow> (\<exists>zs. rankResults ar q xs = Inr zs)"
    using rankResults_total by blast
  have c: "rankResults ar q xs = Inr ys \<longrightarrow>
        mset ys = mset xs
        \<and> (xs = map processMovie ms @ map processTV tvs \<longrightarrow>
             searchMoviesAndTV ar q (Inr ms) (Inr tvs) = Inr (take 20 ys))"
    by (auto simp: rankResults_mset searchMoviesAndTV_def)
  have d: "(\<forall>x y. (fl_sub ar x y \<le> 0) = (x \<le> y)) \<and> rankResults ar q xs = Inr ys \<longrightarrow>
        sorted_wrt (\<lambda>a b. \<forall>sa sb. smartScoreOf ar q a = Inr sa \<and> smartScoreOf ar q b = Inr sb
                          \<longrightarrow> sb \<le> sa) ys
        \<and> (\<forall>k. filter (\<lambda>x. smartScoreOf ar q x = k) ys
               = filter (\<lambda>x. smartScoreOf ar q x = k) xs)
        \<and> (xs = map processMovie ms @ map processTV tvs \<longrightarrow>
             (\<forall>k. filter (\<lambda>x. smartScoreOf ar q x = k) ys
                    = filter (\<lambda>x. smartScoreOf ar q x = k) (map processMovie ms)
                      @ filter (\<lambda>x. smartScoreOf ar q x = k) (map processTV tvs)))"
  proof (intro impI, elim conjE)
    assume sign: "\<forall>x y. (fl_sub ar x y \<le> 0) = (x \<le> y)" and r: "rankResults ar q xs = Inr ys"
    note p = rankResults_props [OF r sign]
    have "filter (\<lambda>x. smartScoreOf ar q x = k) ys
                    = filter (\<lambda>x. smartScoreOf ar q x = k) (map processMovie ms)
                      @ filter (\<lambda>x. smartScoreOf ar q x = k) (map processTV tvs)"
      if "xs = map processMovie ms @ map processTV tvs" for k
      using p(2) [of k] that by simp
    then show "sorted_wrt (\<lambda>a b. \<forall>sa sb. smartScoreOf ar q a = Inr sa \<and> smartScoreOf ar q b = Inr sb
                          \<longrightarrow> sb \<le> sa) ys
        \<and> (\<forall>k. filter (\<lambda>x. smartScoreOf ar q x = k) ys
               = filter (\<lambda>x. smartScoreOf ar q x = k) xs)
        \<and> (xs = map processMovie ms @ map processTV tvs \<longrightarrow>
             (\<forall>k. filter (\<lambda>x. smartScoreOf ar q x = k) ys
                    = filter (\<lambda>x. smartScoreOf ar q x = k) (map processMovie ms)
                      @ filter (\<lambda>x. smartScoreOf ar q x = k) (map processTV tvs)))"
      using p by blast
  qed
  show ?thesis by (intro conjI; (fact a | fact b | fact c | fact d))
qed

theorem rankResults_stable_witness:
  "rankResults coarse ''avatar''
     [exampleRated 3 ''Avatar: The Way of Water'' 7, exampleRated 1 ''Avatar'' 7,
      exampleRated 2 ''Avatar'' (176 / 25)]
     = Inr [exampleRated 1 ''Avatar'' 7, exampleRated 2 ''Avatar'' (176 / 25),
            exampleRated 3 ''Avatar: The Way of Water'' 7]
   \<and> rankResults exact ''avatar''
     [exampleRated 3 ''Avatar: The Way of Water'' 7, exampleRated 1 ''Avatar'' 7,
      exampleRated 2 ''Avatar'' (176 / 25)]
     = Inr [exampleRated 2 ''Avatar'' (176 / 25), exampleRated 1 ''Avatar'' 7,
            exampleRated 3 ''Avatar: The Way of Water'' 7]
   \<and> filter (\<lambda>x. smartScoreOf coarse ''avatar'' x = Inr 84)
        [exampleRated 1 ''Avatar'' 7, exampleRated 2 ''Avatar'' (176 / 25),
         exampleRated 3 ''Avatar: The Way of Water'' 7]
      = [exampleRated 1 ''Avatar'' 7, exampleRated 2 ''Avatar'' (176 / 25)]"
proof -
  let ?a = "exampleRated 1 ''Avatar'' 7" and ?b = "exampleRated 2 ''Avatar'' (176 / 25)"
    and ?c = "exampleRated 3 ''Avatar: The Way of Water'' 7"
  have rc: "rankResults coarse ''avatar'' [?c, ?a, ?b] = Inr [?a, ?b, ?c]"
    by (simp add: rankResults_def compareScores_def coarse_scores) (simp add: coarse_def)
  have re: "rankResults exact ''avatar'' [?c, ?a, ?b] = Inr [?b, ?a, ?c]"
    by (simp add: rankResults_def compareScores_def exact_scores) (simp add: exact_def)
  have sc: "\<forall>x y. (fl_sub coarse x y \<le> 0) = (x \<le> y)" by (simp add: coarse_def)
  note t = rankResults_stable [where ar = coarse and q = "''avatar''" and xs = "[?c, ?a, ?b]"
      and ys = "[?a, ?b, ?c]"]
  have "\<forall>k. filter (\<lambda>x. smartScoreOf coarse ''avatar'' x = k) [?a, ?b, ?c]
          = filter (\<lambda>x. smartScoreOf coarse ''avatar'' x = k) [?c, ?a, ?b]"
    using t sc rc by blast
  then have "filter (\<lambda>x. smartScoreOf coarse ''avatar'' x = Inr 84) [?a, ?b, ?c] = [?a, ?b]"
    by (simp add: coarse_scores)
  then show ?thesis using rc re by blast
qed

section \<open>The normal form of the search results\<close>

lemma posterUrl_cases:
  "posterUrl p = None \<or>
   (\<exists>path. path \<noteq> [] \<and> posterUrl p = Some (''https://image.tmdb.org/t/p/w500'' @ path))"
  by (auto simp: posterUrl_def split: option.splits)

text \<open>
  Claim C10. At most 20 items are returned; each has the media type \<^verbatim>\<open>movie\<close> or \<^verbatim>\<open>tv\<close>
  and a poster path that is null or the image URL prefix followed by a non-empty path.
  Each returned item comes from a movie or a show of the two responses. From a movie
  it has the media type \<^verbatim>\<open>movie\<close> and the fields of the movie. From a show it has the
  media type \<^verbatim>\<open>tv\<close>, the name of the show as its title and the first air date of the
  show as its release date, and the other fields of the show. In both cases the poster
  path is null when the path of the response is absent or empty, and the prefix
  followed by that path otherwise. A show is scored with its name. The search returns
  whenever both responses arrive and every movie has a title and every show a name.
\<close>

theorem searchMoviesAndTV_normalized:
  "(searchMoviesAndTV ar q moviesResponse tvResponse = Inr out \<longrightarrow>
      length out \<le> 20
      \<and> (\<forall>x\<in>set out.
           (media_type x = Some ''movie'' \<or> media_type x = Some ''tv'')
           \<and> (poster_path x = None \<or>
                (\<exists>path. path \<noteq> [] \<and>
                   poster_path x = Some (''https://image.tmdb.org/t/p/w500'' @ path))))
      \<and> (\<exists>movieResults tvResults.
           moviesResponse = Inr movieResults \<and> tvResponse = Inr tvResults
           \<and> (\<forall>x\<in>set out.
                (\<exists>movie\<in>set movieResults.
                    media_type x = Some ''movie''
                    \<and> title x = title movie \<and> release_date x = release_date movie
                    \<and> name x = name movie \<and> first_air_date x = first_air_date movie
                    \<and> item_id x = item_id movie \<and> popularity x = popularity movie
                    \<and> vote_average x = vote_average movie \<and> vote_count x = vote_count movie
                    \<and> genres x = genres movie
                    \<and> poster_path x =
                        (case poster_path movie of
                           None \<Rightarrow> None
                         | Some path \<Rightarrow>
                             if path = [] then None
                             else Some (''https://image.tmdb.org/t/p/w500'' @ path)))
                \<or> (\<exists>show\<in>set tvResults.
                    media_type x = Some ''tv''
                    \<and> title x = name show \<and> release_date x = first_air_date show
                    \<and> name x = name show \<and> first_air_date x = first_air_date show
                    \<and> item_id x = item_id show \<and> popularity x = popularity show
                    \<and> vote_average x = vote_average show \<and> vote_count x = vote_count show
                    \<and> genres x = genres show
                    \<and> poster_path x =
                        (case poster_path show of
                           None \<Rightarrow> None
                         | Some path \<Rightarrow>
                             if path = [] then None
                             else Some (''https://image.tmdb.org/t/p/w500'' @ path))))))
   \<and> smartScoreOf ar q (processTV s)
        = calculateSmartScore_fl ar (name s) q (popularity s) (vote_average s) (vote_count s)
   \<and> ((\<forall>m\<in>set ms. title m \<noteq> None) \<and> (\<forall>s\<in>set tvs. name s \<noteq> None) \<longrightarrow>
        (\<exists>res. searchMoviesAndTV ar q (Inr ms) (Inr tvs) = Inr res))"
proof -
  have a: "searchMoviesAndTV ar q moviesResponse tvResponse = Inr out \<longrightarrow>
      length out \<le> 20
      \<and> (\<forall>x\<in>set out.
           (media_type x = Some ''movie'' \<or> media_type x = Some ''tv'')
           \<and> (poster_path x = None \<or>
                (\<exists>path. path \<noteq> [] \<and>
                   poster_path x = Some (''https://image.tmdb.org/t/p/w500'' @ path))))
      \<and> (\<exists>movieResults tvResults.
           moviesResponse = Inr movieResults \<and> tvResponse = Inr tvResults
           \<and> (\<forall>x\<in>set out.
                (\<exists>movie\<in>set movieResults.
                    media_type x = Some ''movie''
                    \<and> title x = title movie \<and> release_date x = release_date movie
                    \<and> name x = name movie \<and> first_air_date x = first_air_date movie
                    \<and> item_id x = item_id movie \<and> popularity x = popularity movie
                    \<and> vote_average x = vote_average movie \<and> vote_count x = vote_count movie
                    \<and> genres x = genres movie
                    \<and> poster_path x =
                        (case poster_path movie of
                           None \<Rightarrow> None
                         | Some path \<Rightarrow>
                             if path = [] then None
                             else Some (''https://image.tmdb.org/t/p/w500'' @ path)))
                \<or> (\<exists>show\<in>set tvResults.
                    media_type x = Some ''tv''
                    \<and> title x = name show \<and> release_date x = first_air_date show
                    \<and> name x = name show \<and> first_air_date x = first_air_date show
                    \<and> item_id x = item_id show \<and> popularity x = popularity show
                    \<and> vote_average x = vote_average show \<and> vote_count x = vote_count show
                    \<and> genres x = genres show
                    \<and> poster_path x =
                        (case poster_path show of
                           None \<Rightarrow> None
                         | Some path \<Rightarrow>
                             if path = [] then None
                             else Some (''https://image.tmdb.org/t/p/w500'' @ path)))))"
  proof
    assume h: "searchMoviesAndTV ar q moviesResponse tvResponse = Inr out"
    from h obtain mv tv ranked where r: "moviesResponse = Inr mv" "tvResponse = Inr tv"
      "rankResults ar q (map processMovie mv @ map processTV tv) = Inr ranked"
      "out = take 20 ranked"
      by (auto simp: searchMoviesAndTV_def Let_def split: sum.splits)
    have "mset ranked = mset (map processMovie mv @ map processTV tv)"
      using r(3) by (rule rankResults_mset)
    then have "set ranked = set (map processMovie mv @ map processTV tv)"
      by (metis set_mset_mset)
    then have sub: "set out \<subseteq> processMovie ` set mv \<union> processTV ` set tv"
      using r(4) set_take_subset [of 20 ranked] by auto
    have len: "length out \<le> 20" using r(4) by simp
    have shape: "(media_type x = Some ''movie'' \<or> media_type x = Some ''tv'')
           \<and> (poster_path x = None \<or>
                (\<exists>path. path \<noteq> [] \<and>
                   poster_path x = Some (''https://image.tmdb.org/t/p/w500'' @ path)))"
      if "x \<in> set out" for x
    proof -
      from that sub consider m where "x = processMovie m" | s where "x = processTV s"
        by blast
      then show ?thesis
      proof cases
        case 1
        then show ?thesis using posterUrl_cases [of "poster_path m"]
          by (simp add: processMovie_def)
      next
        case 2
        then show ?thesis using posterUrl_cases [of "poster_path s"]
          by (simp add: processTV_def)
      qed
    qed
    have origin: "(\<exists>movie\<in>set mv.
                    media_type x = Some ''movie''
                    \<and> title x = title movie \<and> release_date x = release_date movie
                    \<and> name x = name movie \<and> first_air_date x = first_air_date movie
                    \<and> item_id x = item_id movie \<and> popularity x = popularity movie
                    \<and> vote_average x = vote_average movie \<and> vote_count x = vote_count movie
                    \<and> genres x = genres movie
                    \<and> poster_path x =
                        (case poster_path movie of
                           None \<Rightarrow> None
                         | Some path \<Rightarrow>
                             if path = [] then None
                             else Some (''https://image.tmdb.org/t/p/w500'' @ path)))
                \<or> (\<exists>show\<in>set tv.
                    media_type x = Some ''tv''
                    \<and> title x = name show \<and> release_date x = first_air_date show
                    \<and> name x = name show \<and> first_air_date x = first_air_date show
                    \<and> item_id x = item_id show \<and> popularity x = popularity show
                    \<and> vote_average x = vote_average show \<and> vote_count x = vote_count show
                    \<and> genres x = genres show
                    \<and> poster_path x =
                        (case poster_path show of
                           None \<Rightarrow> None
                         | Some path \<Rightarrow>
                             if path = [] then None
                             else Some (''https://image.tmdb.org/t/p/w500'' @ path)))"
      if "x \<in> set out" for x
    proof -
      from that sub consider m where "m \<in> set mv" "x = processMovie m"
        | s where "s \<in> set tv" "x = processTV s"
        by blast
      then show ?thesis
      proof cases
        case 1
        then show ?thesis
          by (intro disjI1 bexI [of _ m]) (simp_all add: processMovie_def posterUrl_def)
      next
        case 2
        then show ?thesis
          by (intro disjI2 bexI [of _ s]) (simp_all add: processTV_def posterUrl_def)
      qed
    qed
    show "length out \<le> 20
      \<and> (\<forall>x\<in>set out.
           (media_type x = Some ''movie'' \<or> media_type x = Some ''tv'')
           \<and> (poster_path x = None \<or>
                (\<exists>path. path \<noteq> [] \<and>
                   poster_path x = Some (''https://image.tmdb.org/t/p/w500'' @ path))))
      \<and> (\<exists>movieResults tvResults.
           moviesResponse = Inr movieResults \<and> tvResponse = Inr tvResults
           \<and> (\<forall>x\<in>set out.
                (\<exists>movie\<in>set movieResults.
                    media_type x = Some ''movie''
                    \<and> title x = title movie \<and> release_date x = release_date movie
                    \<and> name x = name movie \<and> first_air_date x = first_air_date movie
                    \<and> item_id x = item_id movie \<and> popularity x = popularity movie
                    \<and> vote_average x = vote_average movie \<and> vote_count x = vote_count movie
                    \<and> genres x = genres movie
                    \<and> poster_path x =
                        (case poster_path movie of
                           None \<Rightarrow> None
                         | Some path \<Rightarrow>
                             if path = [] then None
                             else Some (''https://image.tmdb.org/t/p/w500'' @ path)))
                \<or> (\<exists>show\<in>set tvResults.
                    media_type x = Some ''tv''
                    \<and> title x = name show \<and> release_date x = first_air_date show
                    \<and> name x = name show \<and> first_air_date x = first_air_date show
                    \<and> item_id x = item_id show \<and> popularity x = popularity show
                    \<and> vote_average x = vote_average show \<and> vote_count x = vote_count show
                    \<and> genres x = genres show
                    \<and> poster_path x =
                        (case poster_path show of
                           None \<Rightarrow> None
                         | Some path \<Rightarrow>
                             if path = [] then None
                             else Some (''https://image.tmdb.org/t/p/w500'' @ path)))))"
      using len shape origin r(1,2) by (intro conjI ballI exI [of _ mv] exI [of _ tv]) blast+
  qed
  have b: "smartScoreOf ar q (processTV s)
        = calculateSmartScore_fl ar (name s) q (popularity s) (vote_average s) (vote_count s)"
    by (simp add: smartScoreOf_def processTV_def)
  have c: "(\<forall>m\<in>set ms. title m \<noteq> None) \<and> (\<forall>s\<in>set tvs. name s \<noteq> None) \<longrightarrow>
        (\<exists>res. searchMoviesAndTV ar q (Inr ms) (Inr tvs) = Inr res)"
  proof (intro impI, elim conjE)
    assume "\<forall>m\<in>set ms. title m \<noteq> None" "\<forall>s\<in>set tvs. name s \<noteq> None"
    then have "\<forall>x\<in>set (map processMovie ms @ map processTV tvs). title x \<noteq> None"
      by (auto simp: processMovie_def processTV_def)
    then obtain ranked where
      "rankResults ar q (map processMovie ms @ map processTV tvs) = Inr ranked"
      using rankResults_total by blast
    then show "\<exists>res. searchMoviesAndTV ar q (Inr ms) (Inr tvs) = Inr res"
      by (simp add: searchMoviesAndTV_def)
  qed
  show ?thesis by (intro conjI; (fact a | fact b | fact c))
qed

theorem searchMoviesAndTV_normalized_witness:
  "searchMoviesAndTV exact ''thrones'' (Inr [exampleItem 1 ''Avatar'' (Some ''/a.jpg'')])
       (Inr [exampleShow 2 ''Game of Thrones'' ''2011-04-17''])
     = Inr [(exampleShow 2 ''Game of Thrones'' ''2011-04-17'')
              \<lparr>media_type := Some ''tv'',
               title := Some ''Game of Thrones'',
               release_date := Some ''2011-04-17'',
               poster_path := Some ''https://image.tmdb.org/t/p/w500/s.jpg''\<rparr>,
            (exampleItem 1 ''Avatar'' (Some ''/a.jpg''))
              \<lparr>media_type := Some ''movie'',
               poster_path := Some ''https://image.tmdb.org/t/p/w500/a.jpg''\<rparr>]
   \<and> release_date (exampleShow 2 ''Game of Thrones'' ''2011-04-17'') = None
   \<and> title (exampleShow 2 ''Game of Thrones'' ''2011-04-17'') = None
   \<and> length [exampleShow 2 ''Game of Thrones'' ''2011-04-17'', exampleItem 1 ''Avatar'' None] \<le> 20"
proof -
  let ?m = "exampleItem 1 ''Avatar'' (Some ''/a.jpg'')"
  let ?s = "exampleShow 2 ''Game of Thrones'' ''2011-04-17''"
  let ?m' = "?m\<lparr>media_type := Some ''movie'',
               poster_path := Some ''https://image.tmdb.org/t/p/w500/a.jpg''\<rparr>"
  let ?s' = "?s\<lparr>media_type := Some ''tv'', title := Some ''Game of Thrones'',
               release_date := Some ''2011-04-17'',
               poster_path := Some ''https://image.tmdb.org/t/p/w500/s.jpg''\<rparr>"
  have pm: "processMovie ?m = ?m'"
    by (simp add: processMovie_def exampleItem_def posterUrl_def)
  have ps: "processTV ?s = ?s'"
    by (simp add: processTV_def exampleShow_def posterUrl_def)
  have lo: "toLowerCase ''Game of Thrones'' = ''game of thrones''"
    "toLowerCase ''thrones'' = ''thrones''"
    by (simp_all add: toLowerCase_def toLowerChar_def)
  have sm: "smartScoreOf exact ''thrones'' (processMovie ?m) = Inr (ln 40 * 50 + 14)"
    by (simp add: smartScoreOf_def processMovie_def exampleItem_def calculateSmartScore_fl_exact
        calculateSmartScore_def toLowerCase_Avatar lo popularityScore_def qualityBonus_def
        relevanceBonus_def wordMatches_def isWhiteSpace_def)
  have ss: "smartScoreOf exact ''thrones'' (processTV ?s) = Inr (ln 40 * 50 + 14 + 35)"
    by (simp add: smartScoreOf_def processTV_def exampleShow_def calculateSmartScore_fl_exact
        calculateSmartScore_def lo popularityScore_def qualityBonus_def
        relevanceBonus_def wordMatches_def isWhiteSpace_def)
  have r: "searchMoviesAndTV exact ''thrones'' (Inr [?m]) (Inr [?s])
             = Inr [processTV ?s, processMovie ?m]"
    by (simp add: searchMoviesAndTV_def rankResults_def compareScores_def sm ss)
      (simp add: exact_def)
  note t = searchMoviesAndTV_normalized [where ar = exact and q = "''thrones''" and moviesResponse = "Inr [?m]"
      and tvResponse = "Inr [?s]" and out = "[processTV ?s, processMovie ?m]",
      THEN conjunct1, THEN mp, OF r, THEN conjunct1]
  have "length [?s, exampleItem 1 ''Avatar'' None] \<le> 20" using t by simp
  moreover have "release_date ?s = None" "title ?s = None" by (simp_all add: exampleShow_def)
  ultimately show ?thesis using r pm ps by simp
qed

section \<open>The primary trailer lookup\<close>

text \<open>Callbacks that do not throw make \<open>array_find\<close> and \<open>array_map\<close> the library functions.\<close>

lemma array_find_pure:
  assumes "\<And>x. x \<in> set xs \<Longrightarrow> p x = Inr (q x)"
  shows "array_find p xs = Inr (List.find q xs)"
  using assms by (induction xs) auto

lemma tryPriorities_pure:
  assumes "list_all2 (\<lambda>p q. \<forall>v\<in>set yt. p v = Inr (q v)) ps qs"
  shows "tryPriorities ps yt =
           Inr (case List.find (\<lambda>q. list_ex q yt) qs of
                  Some q \<Rightarrow> List.find q yt
                | None \<Rightarrow> (case yt of [] \<Rightarrow> None | v # rest \<Rightarrow> Some v))"
  using assms
proof (induction ps qs rule: list_all2_induct)
  case Nil
  then show ?case by simp
next
  case (Cons p ps q qs)
  have f: "array_find p yt = Inr (List.find q yt)"
    using Cons.hyps(1) by (intro array_find_pure) simp
  show ?case
  proof (cases "list_ex q yt")
    case True
    then have "List.find q yt \<noteq> None"
      by (auto simp: list_ex_iff find_None_iff)
    then obtain v where "List.find q yt = Some v" by blast
    then show ?thesis using True f by simp
  next
    case False
    then have "List.find q yt = None" by (simp add: find_None_iff list_ex_iff)
    then show ?thesis using False f Cons.IH by simp
  qed
qed

lemma trailerPriorities_pure:
  assumes "\<forall>v\<in>set yt. video_type v = ''Trailer'' \<or> video_type v = ''Teaser'' \<longrightarrow> video_name v \<noteq> None"
  shows "list_all2 (\<lambda>p q. \<forall>v\<in>set yt. p v = Inr (q v)) trailerPriorities spec_predicates"
  using assms
  by (auto simp: trailerPriorities_def spec_predicates_def nameIncludes_def nameContains_def
      str_includes_sublist split: option.splits)

lemma getValidTMDBTrailer_named:
  assumes h: "\<forall>v\<in>set videos. video_site v = ''YouTube'' \<and>
        (video_type v = ''Trailer'' \<or> video_type v = ''Teaser'') \<longrightarrow> video_name v \<noteq> None"
  shows "getValidTMDBTrailer videos = Inr (spec_primaryLookup videos)"
proof -
  let ?yt = "filter (\<lambda>v. video_site v = ''YouTube'') videos"
  have "\<forall>v\<in>set ?yt. video_type v = ''Trailer'' \<or> video_type v = ''Teaser'' \<longrightarrow> video_name v \<noteq> None"
    using h by simp
  then have t: "tryPriorities trailerPriorities ?yt =
         Inr (case List.find (\<lambda>q. list_ex q ?yt) spec_predicates of
                Some q \<Rightarrow> List.find q ?yt
              | None \<Rightarrow> (case ?yt of [] \<Rightarrow> None | v # rest \<Rightarrow> Some v))"
    by (intro tryPriorities_pure trailerPriorities_pure)
  show ?thesis
  proof (cases "?yt = []")
    case True
    then show ?thesis
      by (simp add: getValidTMDBTrailer_def spec_primaryLookup_def spec_predicates_def)
  next
    case False
    then have "videos \<noteq> []" by auto
    then show ?thesis using False t
      by (simp add: getValidTMDBTrailer_def spec_primaryLookup_def Let_def)
  qed
qed

lemma getValidTMDBTrailer_nameless:
  "getValidTMDBTrailer
     [\<lparr>video_site = ''YouTube'', video_type = ''Trailer'', video_name = None, video_key = k\<rparr>]
   = Inl TypeError"
  by (simp add: getValidTMDBTrailer_def trailerPriorities_def nameIncludes_def)

text \<open>
  Claim C3. When every YouTube video of type Trailer or Teaser has a name,
  \<open>getValidTMDBTrailer\<close> returns what the specification says: the first video, among
  those hosted on YouTube, that satisfies the earliest predicate with a match in the
  order official Trailer, main Trailer, any Trailer, official Teaser, any Teaser; the
  first YouTube video when no predicate has a match; and null when there is no YouTube
  video. A Trailer named \<^verbatim>\<open>Official Trailer\<close> is returned before a Teaser named
  \<^verbatim>\<open>Teaser 1\<close>, in either order of the input.
\<close>

theorem getValidTMDBTrailer_priority:
  "((\<forall>v\<in>set videos. video_site v = ''YouTube'' \<and>
        (video_type v = ''Trailer'' \<or> video_type v = ''Teaser'') \<longrightarrow> video_name v \<noteq> None)
      \<longrightarrow> getValidTMDBTrailer videos = Inr (spec_primaryLookup videos))
   \<and> (filter (\<lambda>v. video_site v = ''YouTube'') videos = [] \<longrightarrow> getValidTMDBTrailer videos = Inr None)
   \<and> getValidTMDBTrailer
        [exampleVideo ''YouTube'' ''Trailer'' ''Official Trailer'',
         exampleVideo ''YouTube'' ''Teaser'' ''Teaser 1'']
       = Inr (Some (exampleVideo ''YouTube'' ''Trailer'' ''Official Trailer''))
   \<and> getValidTMDBTrailer
        [exampleVideo ''YouTube'' ''Teaser'' ''Teaser 1'',
         exampleVideo ''YouTube'' ''Trailer'' ''Official Trailer'']
       = Inr (Some (exampleVideo ''YouTube'' ''Trailer'' ''Official Trailer''))"
proof -
  have a: "getValidTMDBTrailer videos = Inr (spec_primaryLookup videos)"
    if "\<forall>v\<in>set videos. video_site v = ''YouTube'' \<and>
        (video_type v = ''Trailer'' \<or> video_type v = ''Teaser'') \<longrightarrow> video_name v \<noteq> None"
    using that by (rule getValidTMDBTrailer_named)
  have b: "getValidTMDBTrailer videos = Inr None"
    if "filter (\<lambda>v. video_site v = ''YouTube'') videos = []"
    using that by (simp add: getValidTMDBTrailer_def)
  have c: "getValidTMDBTrailer
        [exampleVideo ''YouTube'' ''Trailer'' ''Official Trailer'',
         exampleVideo ''YouTube'' ''Teaser'' ''Teaser 1'']
       = Inr (Some (exampleVideo ''YouTube'' ''Trailer'' ''Official Trailer''))"
    by (simp add: getValidTMDBTrailer_def exampleVideo_def trailerPriorities_def
        nameIncludes_def toLowerCase_def toLowerChar_def)
  have d: "getValidTMDBTrailer
        [exampleVideo ''YouTube'' ''Teaser'' ''Teaser 1'',
         exampleVideo ''YouTube'' ''Trailer'' ''Official Trailer'']
       = Inr (Some (exampleVideo ''YouTube'' ''Trailer'' ''Official Trailer''))"
    by (simp add: getValidTMDBTrailer_def exampleVideo_def trailerPriorities_def
        nameIncludes_def toLowerCase_def toLowerChar_def)
  show ?thesis using a b c d by blast
qed

theorem getValidTMDBTrailer_priority_witness:
  "spec_primaryLookup
     [exampleVideo ''YouTube'' ''Teaser'' ''Teaser 1'',
      exampleVideo ''Vimeo'' ''Trailer'' ''Official Trailer'',
      exampleVideo ''YouTube'' ''Trailer'' ''Official Trailer'']
   = Some (exampleVideo ''YouTube'' ''Trailer'' ''Official Trailer'')
   \<and> getValidTMDBTrailer [exampleVideo ''Vimeo'' ''Trailer'' ''Official Trailer''] = Inr None"
proof -
  let ?vs = "[exampleVideo ''YouTube'' ''Teaser'' ''Teaser 1'',
      exampleVideo ''Vimeo'' ''Trailer'' ''Official Trailer'',
      exampleVideo ''YouTube'' ''Trailer'' ''Official Trailer'']"
  have n: "\<forall>v\<in>set ?vs. video_site v = ''YouTube'' \<and>
        (video_type v = ''Trailer'' \<or> video_type v = ''Teaser'') \<longrightarrow> video_name v \<noteq> None"
    by (simp add: exampleVideo_def)
  have g: "getValidTMDBTrailer ?vs = Inr (Some (exampleVideo ''YouTube'' ''Trailer'' ''Official Trailer''))"
    by (simp add: getValidTMDBTrailer_def exampleVideo_def trailerPriorities_def
        nameIncludes_def toLowerCase_def toLowerChar_def)
  have e: "filter (\<lambda>v. video_site v = ''YouTube'') [exampleVideo ''Vimeo'' ''Trailer'' ''Official Trailer''] = []"
    by (simp add: exampleVideo_def)
  note t = getValidTMDBTrailer_priority [of ?vs, THEN conjunct1, THEN mp, OF n]
  note u = getValidTMDBTrailer_priority [of "[exampleVideo ''Vimeo'' ''Trailer'' ''Official Trailer'']",
      THEN conjunct2, THEN conjunct1, THEN mp, OF e]
  show ?thesis using t g u by simp
qed

section \<open>Decimal numerals\<close>

lemma digits_small: "n < 10 \<Longrightarrow> digits n = [digit_char n]"
  by (subst digits.simps) simp

lemma digits_large: "\<not> n < 10 \<Longrightarrow> digits n = digits (n div 10) @ [digit_char (n mod 10)]"
  by (subst digits.simps) simp

lemma digits_not_Nil: "digits n \<noteq> []"
  by (cases "n < 10") (simp_all add: digits_small digits_large)

lemma digit_char_props:
  assumes "d < 10"
  shows "digit_char d \<in> set ''0123456789''" "(of_char (digit_char d) :: nat) = 48 + d"
    "0 < d \<Longrightarrow> digit_char d \<noteq> CHR ''0''"
proof -
  from assms have "d \<in> {0, 1, 2, 3, 4, 5, 6, 7, 8, 9}" by auto
  then show "digit_char d \<in> set ''0123456789''" "(of_char (digit_char d) :: nat) = 48 + d"
    "0 < d \<Longrightarrow> digit_char d \<noteq> CHR ''0''"
    by (auto simp: digit_char_def)
qed

lemma decimal_value_snoc:
  "decimal_value (s @ [c]) = 10 * decimal_value s + (of_char c - 48)"
  by (simp add: decimal_value_def)

text \<open>The digits of a number denote it, are decimal digits, and do not begin with 0.\<close>

lemma decimal_value_digits: "decimal_value (digits n) = n"
proof (induction n rule: digits.induct)
  case (1 n)
  show ?case
  proof (cases "n < 10")
    case True
    then show ?thesis using digit_char_props(2) [of n]
      by (simp add: digits_small decimal_value_def)
  next
    case False
    have "n mod 10 < 10" by simp
    then show ?thesis using "1.IH" [OF False] digit_char_props(2) [of "n mod 10"] False
      by (simp add: digits_large decimal_value_snoc)
  qed
qed

lemma digits_chars: "c \<in> set (digits n) \<Longrightarrow> c \<in> set ''0123456789''"
proof (induction n rule: digits.induct)
  case (1 n)
  show ?case
  proof (cases "n < 10")
    case True
    then show ?thesis using "1.prems" digit_char_props(1) [of n] by (simp add: digits_small)
  next
    case False
    have "n mod 10 < 10" by simp
    then show ?thesis using "1.IH" [OF False] "1.prems" digit_char_props(1) [of "n mod 10"] False
      by (auto simp: digits_large)
  qed
qed

lemma digits_hd: "0 < n \<Longrightarrow> hd (digits n) \<noteq> CHR ''0''"
proof (induction n rule: digits.induct)
  case (1 n)
  show ?case
  proof (cases "n < 10")
    case True
    then show ?thesis using "1.prems" digit_char_props(3) [of n] by (simp add: digits_small)
  next
    case False
    then have "0 < n div 10" by simp
    then show ?thesis using "1.IH" [OF False] False digits_not_Nil [of "n div 10"]
      by (simp add: digits_large)
  qed
qed

lemma num_toString_decimal:
  assumes "0 \<le> i"
  shows "decimal_value (num_toString i) = nat i \<and> num_toString i \<noteq> []
    \<and> (\<forall>c\<in>set (num_toString i). c \<in> set ''0123456789'')
    \<and> (0 < i \<longrightarrow> hd (num_toString i) \<noteq> CHR ''0'')"
proof -
  have e: "num_toString i = digits (nat i)" using assms by (simp add: num_toString_def)
  have "0 < i \<longrightarrow> hd (digits (nat i)) \<noteq> CHR ''0''"
    using digits_hd [of "nat i"] by simp
  moreover have "\<forall>c\<in>set (digits (nat i)). c \<in> set ''0123456789''"
    using digits_chars by blast
  ultimately show ?thesis
    unfolding e using decimal_value_digits [of "nat i"] digits_not_Nil [of "nat i"] by blast
qed

lemma num_toString_2001: "num_toString 2001 = ''2001''"
  by (simp add: num_toString_def digits_small digits_large digit_char_def)

section \<open>The secondary search\<close>

text \<open>
  The score of the code is the score of the specification, with the year that the
  code holds read as a year text: none for the empty string, for NaN and for the
  number 0, which are falsy, and the decimal digits of any other number.
\<close>

lemma calculateTrailerScore_spec:
  assumes "snippet_title v = Some vt" "snippet_description v = Some vd"
    "snippet_channelTitle v = Some vc"
  shows "calculateTrailerScore v t y =
           Inr (spec_trailerScore vt vd vc t
                  (case y of
                     EmptyString \<Rightarrow> None
                   | NaN \<Rightarrow> None
                   | YearNumber n \<Rightarrow> if n = 0 then None else Some (num_toString n)))"
proof -
  have r: "(if c then s + k else s) = s + (if c then k else 0)"
    "(if c then s - k else s) = s - (if c then k else 0)" for c and s k :: int
    by simp_all
  have e: "str_includes s = (\<lambda>w. sublist w s)" for s
    by (rule ext) (rule str_includes_sublist)
  show ?thesis
    unfolding calculateTrailerScore_def spec_trailerScore_def Let_def officialChannels_def
    by (cases y) (simp_all add: assms r e split del: if_split, simp_all)
qed

lemma array_map_pure:
  assumes "\<And>x. x \<in> set xs \<Longrightarrow> f x = Inr (g x)"
  shows "array_map f xs = Inr (map g xs)"
  using assms by (induction xs) auto

lemma array_map_Inr:
  "array_map f xs = Inr ys \<Longrightarrow> \<forall>x\<in>set xs. \<exists>y. f x = Inr y"
  by (induction xs arbitrary: ys) (auto split: sum.splits)

lemma sort_key_head:
  assumes "sort_key g xs = y # ys"
  shows "y \<in> set xs \<and> (\<forall>x\<in>set xs. g y \<le> g x)"
proof -
  have s: "set (y # ys) = set xs" using assms by (metis set_sort)
  have "sorted (map g (y # ys))" using assms by (metis sorted_sort_key)
  then have "\<forall>z\<in>set ys. g y \<le> g z" by simp
  then show ?thesis using s by auto
qed

lemma findBest_pure:
  assumes "\<And>v. v \<in> set videos \<Longrightarrow> calculateTrailerScore v t y = Inr (sc v)"
  shows "findBestYouTubeTrailer videos t y =
           Inr (case sort_key (\<lambda>z. - snd z) (filter (\<lambda>item. snd item > 0) (map (\<lambda>v. (v, sc v)) videos)) of
                  [] \<Rightarrow> None | first # rest \<Rightarrow> Some (fst first))"
proof (cases "videos = []")
  case True
  then show ?thesis by (simp add: findBestYouTubeTrailer_def)
next
  case False
  have m: "array_map (\<lambda>v. case calculateTrailerScore v t y of Inl e \<Rightarrow> Inl e | Inr s \<Rightarrow> Inr (v, s)) videos
        = Inr (map (\<lambda>v. (v, sc v)) videos)"
    by (rule array_map_pure) (simp add: assms)
  have s: "array_sort (\<lambda>a b. Inr (snd b - snd a)) xs = Inr (sort_key (\<lambda>z. - snd z) xs)"
    for xs :: "(ytVideo \<times> int) list"
    by (rule array_sort_key) simp
  show ?thesis using False by (simp add: findBestYouTubeTrailer_def m s)
qed

lemma findBest_props:
  assumes "\<And>v. v \<in> set videos \<Longrightarrow> calculateTrailerScore v t y = Inr (sc v)"
  shows "\<exists>r. findBestYouTubeTrailer videos t y = Inr r
           \<and> (r = None \<longleftrightarrow> (\<forall>v\<in>set videos. sc v \<le> 0))
           \<and> (\<forall>b. r = Some b \<longrightarrow> b \<in> set videos \<and> 0 < sc b \<and> (\<forall>w\<in>set videos. sc w \<le> sc b))"
proof -
  let ?pos = "filter (\<lambda>item. snd item > 0) (map (\<lambda>v. (v, sc v)) videos)"
  let ?srt = "sort_key (\<lambda>z. - snd z) ?pos"
  note fb = findBest_pure [OF assms, of videos]
  show ?thesis
  proof (cases ?srt)
    case Nil
    then have "?pos = []" by (metis length_sort length_0_conv)
    then have "\<forall>v\<in>set videos. sc v \<le> 0"
      by (auto simp: filter_empty_conv)
    then show ?thesis using fb Nil by simp
  next
    case (Cons first rest)
    from sort_key_head [OF Cons]
    have h: "first \<in> set ?pos" "\<forall>x\<in>set ?pos. - snd first \<le> - snd x" by auto
    from h(1) have f: "fst first \<in> set videos" "snd first = sc (fst first)" "0 < sc (fst first)"
      by auto
    have "sc w \<le> sc (fst first)" if "w \<in> set videos" for w
    proof (cases "0 < sc w")
      case True
      then have "(w, sc w) \<in> set ?pos" using that by auto
      then show ?thesis using h(2) f(2) by fastforce
    next
      case False
      then show ?thesis using f(3) by simp
    qed
    moreover have "\<not> (\<forall>v\<in>set videos. sc v \<le> 0)" using f(1,3) by fastforce
    ultimately show ?thesis using fb Cons f by simp
  qed
qed

lemma tryQueries_char:
  "tryQueries search t y qs =
     (takeWhile (\<lambda>q. queryOutcome search t y q = Inr None) qs
        @ take 1 (dropWhile (\<lambda>q. queryOutcome search t y q = Inr None) qs),
      case dropWhile (\<lambda>q. queryOutcome search t y q = Inr None) qs of
        [] \<Rightarrow> Inr None
      | q # later \<Rightarrow> queryOutcome search t y q)"
proof (induction qs)
  case Nil
  then show ?case by simp
next
  case (Cons q qs)
  have e: "findBestYouTubeTrailer [] t y = Inr None" by (simp add: findBestYouTubeTrailer_def)
  show ?case
  proof (cases "search q")
    case (Inl err)
    then show ?thesis by (simp add: queryOutcome_def)
  next
    case (Inr items)
    then have o: "queryOutcome search t y q = findBestYouTubeTrailer items t y"
      by (simp add: queryOutcome_def)
    show ?thesis
    proof (cases "findBestYouTubeTrailer items t y")
      case (Inl err)
      then show ?thesis using Inr o e by (auto simp: )
    next
      case r: (Inr res)
      show ?thesis
      proof (cases res)
        case None
        then show ?thesis using Inr o r e Cons.IH by (auto simp: )
      next
        case (Some b)
        then show ?thesis using Inr o r e by auto
      qed
    qed
  qed
qed

lemma searchYouTubeTrailer_char:
  assumes "key \<noteq> None" "key \<noteq> Some []"
  shows "searchYouTubeTrailer key search gfy t rd =
     (takeWhile (\<lambda>q. queryOutcome search t (yearOf gfy rd) q = Inr None) (trailerQueries t (yearOf gfy rd))
        @ take 1 (dropWhile (\<lambda>q. queryOutcome search t (yearOf gfy rd) q = Inr None)
                    (trailerQueries t (yearOf gfy rd))),
      case dropWhile (\<lambda>q. queryOutcome search t (yearOf gfy rd) q = Inr None)
             (trailerQueries t (yearOf gfy rd)) of
        [] \<Rightarrow> None
      | q # later \<Rightarrow> (case queryOutcome search t (yearOf gfy rd) q of Inl e \<Rightarrow> None | Inr r \<Rightarrow> r))"
proof -
  define y where "y = yearOf gfy rd"
  define d where "d = dropWhile (\<lambda>q. queryOutcome search t y q = Inr None) (trailerQueries t y)"
  define tw where "tw = takeWhile (\<lambda>q. queryOutcome search t y q = Inr None) (trailerQueries t y)"
  have body: "searchYouTubeTrailer_body search gfy t rd =
      (tw @ take 1 d, case d of [] \<Rightarrow> Inr None | q # later \<Rightarrow> queryOutcome search t y q)"
    unfolding y_def d_def tw_def searchYouTubeTrailer_body_def Let_def
    by (rule tryQueries_char)
  have k: "\<not> (key = None \<or> key = Some [])" using assms by simp
  have "searchYouTubeTrailer key search gfy t rd =
      (tw @ take 1 d,
       case d of [] \<Rightarrow> None
       | q # later \<Rightarrow> (case queryOutcome search t y q of Inl e \<Rightarrow> None | Inr r \<Rightarrow> r))"
    unfolding searchYouTubeTrailer_def body using k
    by (auto split: list.splits sum.splits)
  then show ?thesis unfolding y_def d_def tw_def .
qed

lemma stop_at_first:
  assumes "i < length qs" "\<forall>j<i. P (qs ! j)" "\<not> P (qs ! i)"
  shows "takeWhile P qs = take i qs" "dropWhile P qs = qs ! i # drop (Suc i) qs"
proof -
  show t: "takeWhile P qs = take i qs"
    using assms by (intro takeWhile_eq_take_P_nth) auto
  have "dropWhile P qs = drop (length (takeWhile P qs)) qs"
    by (rule dropWhile_eq_drop)
  then show "dropWhile P qs = qs ! i # drop (Suc i) qs"
    using t assms(1) by (simp add: Cons_nth_drop_Suc)
qed

text \<open>The scores of two videos for a film of 2001, and the better of the two.\<close>

lemma example_lower:
  "toLowerCase exampleTitle = ''am'' @ [CHR 0xE9] @ ''lie''"
  "toLowerCase exampleVideoTitle = ''am'' @ [CHR 0xE9] @ ''lie (2001) official trailer''"
  "toLowerCase ''Teaser Trailer'' = ''teaser trailer''"
  "toLowerCase ''Netflix'' = ''netflix''"
  "toLowerCase ''Fan Channel'' = ''fan channel''"
  "toLowerCase [] = []"
  by (simp_all add: toLowerCase_def toLowerChar_def exampleTitle_def exampleVideoTitle_def)

lemma exampleYt_score:
  "calculateTrailerScore (exampleYt exampleVideoTitle ''Netflix'') exampleTitle (YearNumber 2001)
     = Inr 39"
  "calculateTrailerScore (exampleYt ''Teaser Trailer'' ''Fan Channel'') exampleTitle
     (YearNumber 2001) = Inr 6"
  by (simp_all add: calculateTrailerScore_def exampleYt_def example_lower num_toString_2001
      officialChannels_def)

lemma exampleYt_best:
  "findBestYouTubeTrailer
     [exampleYt ''Teaser Trailer'' ''Fan Channel'', exampleYt exampleVideoTitle ''Netflix'']
     exampleTitle (YearNumber 2001)
   = Inr (Some (exampleYt exampleVideoTitle ''Netflix''))"
  by (simp add: findBestYouTubeTrailer_def exampleYt_score)

text \<open>
  Claim C4. The year of the search is the empty string without a release date, the
  number that the runtime reads from the date, and NaN when it reads none. The four
  queries are the title with the year and \<^verbatim>\<open>official trailer\<close>, with the year and
  \<^verbatim>\<open>trailer\<close>, with \<^verbatim>\<open>official trailer\<close>, and with \<^verbatim>\<open>trailer\<close>, where the year is written in
  decimal digits: the digits denote the number and do not begin with 0, and a negative
  number has a minus sign before them. Without a release date the year is empty and
  two blanks follow the title. The score of a video is the sum the specification gives,
  on lower-cased strings, with the 5 points of the year for a year other than 0 whose
  digits the title or the description contains, and without them when there is no
  release date or the year is NaN or 0; a video without title, description or channel
  raises a type error. \<open>findBestYouTubeTrailer\<close> returns null exactly when no video has
  a positive score, and otherwise a video of positive score that no other video
  exceeds. The queries are sent in order: when the first \<open>i\<close> queries yield no trailer
  and the next one yields the trailer \<open>b\<close>, exactly those \<open>i + 1\<close> queries are sent and
  \<open>b\<close> is returned; when none yields a trailer all four are sent and null is returned.
\<close>

theorem searchYouTubeTrailer_queries_and_scores:
  "yearOf getFullYear None = EmptyString
   \<and> yearOf getFullYear (Some []) = EmptyString
   \<and> (d \<noteq> [] \<and> getFullYear d = Some n \<longrightarrow> yearOf getFullYear (Some d) = YearNumber n)
   \<and> (d \<noteq> [] \<and> getFullYear d = None \<longrightarrow> yearOf getFullYear (Some d) = NaN)
   \<and> (d \<noteq> [] \<and> getFullYear d = Some n \<longrightarrow>
        trailerQueries t (yearOf getFullYear (Some d)) =
          [t @ '' '' @ num_toString n @ '' official trailer'',
           t @ '' '' @ num_toString n @ '' trailer'',
           t @ '' official trailer'',
           t @ '' trailer''])
   \<and> trailerQueries t (yearOf getFullYear None) =
          [t @ ''  official trailer'', t @ ''  trailer'',
           t @ '' official trailer'', t @ '' trailer'']
   \<and> (d \<noteq> [] \<and> getFullYear d = None \<longrightarrow>
        trailerQueries t (yearOf getFullYear (Some d)) =
          [t @ '' NaN official trailer'', t @ '' NaN trailer'',
           t @ '' official trailer'', t @ '' trailer''])
   \<and> (0 \<le> num \<longrightarrow>
        decimal_value (num_toString num) = nat num
        \<and> num_toString num \<noteq> []
        \<and> (\<forall>c\<in>set (num_toString num). c \<in> set ''0123456789'')
        \<and> (0 < num \<longrightarrow> hd (num_toString num) \<noteq> CHR ''0''))
   \<and> (num < 0 \<longrightarrow> num_toString num = CHR ''-'' # num_toString (- num))
   \<and> num_toString 2001 = ''2001''
   \<and> toLowerCase str = map toLowerChar str
   \<and> (of_char (toLowerChar c) :: nat) =
        (if (65 \<le> (of_char c :: nat) \<and> (of_char c :: nat) \<le> 90)
            \<or> (192 \<le> (of_char c :: nat) \<and> (of_char c :: nat) \<le> 222
                \<and> (of_char c :: nat) \<noteq> 215)
         then of_char c + 32 else of_char c)
   \<and> (snippet_title v = Some vt \<and> snippet_description v = Some vd
        \<and> snippet_channelTitle v = Some vc
        \<and> d \<noteq> [] \<and> getFullYear d = Some n \<and> n \<noteq> 0 \<longrightarrow>
        calculateTrailerScore v t (yearOf getFullYear (Some d))
          = Inr (spec_trailerScore vt vd vc t (Some (num_toString n))))
   \<and> (snippet_title v = Some vt \<and> snippet_description v = Some vd
        \<and> snippet_channelTitle v = Some vc
        \<and> (releaseDate = None \<or> releaseDate = Some []
            \<or> (\<exists>date. releaseDate = Some date
                  \<and> (getFullYear date = None \<or> getFullYear date = Some 0))) \<longrightarrow>
        calculateTrailerScore v t (yearOf getFullYear releaseDate)
          = Inr (spec_trailerScore vt vd vc t None))
   \<and> (snippet_title v = None \<or> snippet_description v = None
        \<or> snippet_channelTitle v = None \<longrightarrow>
        calculateTrailerScore v t y = Inl TypeError)
   \<and> ((\<forall>v\<in>set videos. calculateTrailerScore v t y = Inr (sc v)) \<longrightarrow>
        (\<exists>r. findBestYouTubeTrailer videos t y = Inr r
            \<and> (r = None \<longleftrightarrow> (\<forall>v\<in>set videos. sc v \<le> 0))
            \<and> (\<forall>b. r = Some b \<longrightarrow>
                  b \<in> set videos \<and> 0 < sc b \<and> (\<forall>w\<in>set videos. sc w \<le> sc b))))
   \<and> (key \<noteq> None \<and> key \<noteq> Some [] \<and> y = yearOf getFullYear releaseDate \<longrightarrow>
        (\<forall>i b. i < length (trailerQueries t y)
               \<and> (\<forall>j<i. queryOutcome search t y (trailerQueries t y ! j) = Inr None)
               \<and> queryOutcome search t y (trailerQueries t y ! i) = Inr (Some b) \<longrightarrow>
               searchYouTubeTrailer key search getFullYear t releaseDate
                 = (take (Suc i) (trailerQueries t y), Some b))
        \<and> ((\<forall>q\<in>set (trailerQueries t y). queryOutcome search t y q = Inr None) \<longrightarrow>
               searchYouTubeTrailer key search getFullYear t releaseDate
                 = (trailerQueries t y, None)))"
proof -
  have a1: "yearOf getFullYear None = EmptyString"
    by (simp add: yearOf_def)
  have a2: "yearOf getFullYear (Some []) = EmptyString"
    by (simp add: yearOf_def)
  have a3: "(d \<noteq> [] \<and> getFullYear d = Some n \<longrightarrow> yearOf getFullYear (Some d) = YearNumber n)"
    by (simp add: yearOf_def)
  have a4: "(d \<noteq> [] \<and> getFullYear d = None \<longrightarrow> yearOf getFullYear (Some d) = NaN)"
    by (simp add: yearOf_def)
  have b1: "(d \<noteq> [] \<and> getFullYear d = Some n \<longrightarrow>
        trailerQueries t (yearOf getFullYear (Some d)) =
          [t @ '' '' @ num_toString n @ '' official trailer'',
           t @ '' '' @ num_toString n @ '' trailer'',
           t @ '' official trailer'',
           t @ '' trailer''])"
    by (simp add: yearOf_def trailerQueries_def)
  have b2: "trailerQueries t (yearOf getFullYear None) =
          [t @ ''  official trailer'', t @ ''  trailer'',
           t @ '' official trailer'', t @ '' trailer'']"
    by (simp add: yearOf_def trailerQueries_def)
  have b3: "(d \<noteq> [] \<and> getFullYear d = None \<longrightarrow>
        trailerQueries t (yearOf getFullYear (Some d)) =
          [t @ '' NaN official trailer'', t @ '' NaN trailer'',
           t @ '' official trailer'', t @ '' trailer''])"
    by (simp add: yearOf_def trailerQueries_def)
  have d1: "(0 \<le> num \<longrightarrow>
        decimal_value (num_toString num) = nat num
        \<and> num_toString num \<noteq> []
        \<and> (\<forall>c\<in>set (num_toString num). c \<in> set ''0123456789'')
        \<and> (0 < num \<longrightarrow> hd (num_toString num) \<noteq> CHR ''0''))"
    using num_toString_decimal [of num] by blast
  have d2: "(num < 0 \<longrightarrow> num_toString num = CHR ''-'' # num_toString (- num))"
    by (simp add: num_toString_def digits_not_Nil)
  have d3: "num_toString 2001 = ''2001''"
    by (rule num_toString_2001)
  have l1: "toLowerCase str = map toLowerChar str"
    by (simp add: toLowerCase_def)
  have l2: "(of_char (toLowerChar c) :: nat) =
        (if (65 \<le> (of_char c :: nat) \<and> (of_char c :: nat) \<le> 90)
            \<or> (192 \<le> (of_char c :: nat) \<and> (of_char c :: nat) \<le> 222
                \<and> (of_char c :: nat) \<noteq> 215)
         then of_char c + 32 else of_char c)"
    by (rule toLowerChar_code_point)
  have c1: "(snippet_title v = Some vt \<and> snippet_description v = Some vd
        \<and> snippet_channelTitle v = Some vc
        \<and> d \<noteq> [] \<and> getFullYear d = Some n \<and> n \<noteq> 0 \<longrightarrow>
        calculateTrailerScore v t (yearOf getFullYear (Some d))
          = Inr (spec_trailerScore vt vd vc t (Some (num_toString n))))"
    using calculateTrailerScore_spec [of v vt vd vc t "YearNumber n"] by (simp add: yearOf_def)
  have c2: "(snippet_title v = Some vt \<and> snippet_description v = Some vd
        \<and> snippet_channelTitle v = Some vc
        \<and> (releaseDate = None \<or> releaseDate = Some []
            \<or> (\<exists>date. releaseDate = Some date
                  \<and> (getFullYear date = None \<or> getFullYear date = Some 0))) \<longrightarrow>
        calculateTrailerScore v t (yearOf getFullYear releaseDate)
          = Inr (spec_trailerScore vt vd vc t None))"
    using calculateTrailerScore_spec [of v vt vd vc t EmptyString]
      calculateTrailerScore_spec [of v vt vd vc t NaN]
      calculateTrailerScore_spec [of v vt vd vc t "YearNumber 0"]
    by (auto simp: yearOf_def)
  have c3: "(snippet_title v = None \<or> snippet_description v = None
        \<or> snippet_channelTitle v = None \<longrightarrow>
        calculateTrailerScore v t y = Inl TypeError)"
    by (auto simp: calculateTrailerScore_def split: option.splits)
  have f: "((\<forall>v\<in>set videos. calculateTrailerScore v t y = Inr (sc v)) \<longrightarrow>
        (\<exists>r. findBestYouTubeTrailer videos t y = Inr r
            \<and> (r = None \<longleftrightarrow> (\<forall>v\<in>set videos. sc v \<le> 0))
            \<and> (\<forall>b. r = Some b \<longrightarrow>
                  b \<in> set videos \<and> 0 < sc b \<and> (\<forall>w\<in>set videos. sc w \<le> sc b))))"
    using findBest_props [of videos t y sc] by blast
  have g: "(key \<noteq> None \<and> key \<noteq> Some [] \<and> y = yearOf getFullYear releaseDate \<longrightarrow>
        (\<forall>i b. i < length (trailerQueries t y)
               \<and> (\<forall>j<i. queryOutcome search t y (trailerQueries t y ! j) = Inr None)
               \<and> queryOutcome search t y (trailerQueries t y ! i) = Inr (Some b) \<longrightarrow>
               searchYouTubeTrailer key search getFullYear t releaseDate
                 = (take (Suc i) (trailerQueries t y), Some b))
        \<and> ((\<forall>q\<in>set (trailerQueries t y). queryOutcome search t y q = Inr None) \<longrightarrow>
               searchYouTubeTrailer key search getFullYear t releaseDate
                 = (trailerQueries t y, None)))"
  proof (intro impI, elim conjE, intro conjI allI impI)
    fix i b
    assume k: "key \<noteq> None" "key \<noteq> Some []" "y = yearOf getFullYear releaseDate"
    assume "i < length (trailerQueries t y)
               \<and> (\<forall>j<i. queryOutcome search t y (trailerQueries t y ! j) = Inr None)
               \<and> queryOutcome search t y (trailerQueries t y ! i) = Inr (Some b)"
    then have i: "i < length (trailerQueries t y)"
        "\<forall>j<i. queryOutcome search t y (trailerQueries t y ! j) = Inr None"
        "queryOutcome search t y (trailerQueries t y ! i) = Inr (Some b)"
      by simp_all
    let ?P = "\<lambda>q. queryOutcome search t y q = Inr None"
    have n: "\<not> ?P (trailerQueries t y ! i)" using i(3) by simp
    note s = stop_at_first [of i "trailerQueries t y" ?P, OF i(1) i(2) n]
    show "searchYouTubeTrailer key search getFullYear t releaseDate
                 = (take (Suc i) (trailerQueries t y), Some b)"
      using searchYouTubeTrailer_char [OF k(1,2), of search getFullYear t releaseDate] s i(1,3)
      by (simp add: k(3) [symmetric] take_Suc_conv_app_nth)
  next
    assume k: "key \<noteq> None" "key \<noteq> Some []" "y = yearOf getFullYear releaseDate"
    assume n: "\<forall>q\<in>set (trailerQueries t y). queryOutcome search t y q = Inr None"
    let ?P = "\<lambda>q. queryOutcome search t y q = Inr None"
    have "takeWhile ?P (trailerQueries t y) = trailerQueries t y"
      "dropWhile ?P (trailerQueries t y) = []"
      using n by simp_all
    then show "searchYouTubeTrailer key search getFullYear t releaseDate = (trailerQueries t y, None)"
      unfolding searchYouTubeTrailer_char [OF k(1,2), of search getFullYear t releaseDate]
        k(3) [symmetric]
      by (simp only: list.case append_Nil2 take.simps)
  qed
  show ?thesis
    by (intro conjI; (fact a1 | fact a2 | fact a3 | fact a4 | fact b1 | fact b2 | fact b3 | fact d1 | fact d2 | fact d3 | fact l1 | fact l2 | fact c1 | fact c2 | fact c3 | fact f | fact g))
qed

theorem searchYouTubeTrailer_queries_and_scores_witness:
  "searchYouTubeTrailer (Some ''key'')
     (\<lambda>q. if q = exampleTitle @ '' 2001 trailer''
          then Inr [exampleYt ''Teaser Trailer'' ''Fan Channel'',
                    exampleYt exampleVideoTitle ''Netflix'']
          else Inr [])
     (\<lambda>d. if d = ''2001-04-25'' then Some 2001 else None) exampleTitle (Some ''2001-04-25'')
   = ([exampleTitle @ '' 2001 official trailer'', exampleTitle @ '' 2001 trailer''],
      Some (exampleYt exampleVideoTitle ''Netflix''))
   \<and> calculateTrailerScore (exampleYt exampleVideoTitle ''Netflix'') exampleTitle
       (yearOf (\<lambda>d. if d = ''2001-04-25'' then Some 2001 else None) (Some ''2001-04-25''))
       = Inr (10 + 5 + 8 + 6 + 10)
   \<and> calculateTrailerScore (exampleYt ''Teaser Trailer'' ''Fan Channel'') exampleTitle
       (yearOf (\<lambda>d. if d = ''2001-04-25'' then Some 2001 else None) (Some ''2001-04-25''))
       = Inr 6"
proof -
  let ?v = "exampleYt exampleVideoTitle ''Netflix''"
  let ?w = "exampleYt ''Teaser Trailer'' ''Fan Channel''"
  let ?search = "\<lambda>q. if q = exampleTitle @ '' 2001 trailer'' then Inr [?w, ?v] else Inr []"
  let ?gfy = "\<lambda>d. if d = ''2001-04-25'' then Some (2001 :: int) else None"
  let ?y = "YearNumber 2001"
  have y: "yearOf ?gfy (Some ''2001-04-25'') = ?y" by (simp add: yearOf_def)
  have q: "trailerQueries exampleTitle ?y =
      [exampleTitle @ '' 2001 official trailer'', exampleTitle @ '' 2001 trailer'',
       exampleTitle @ '' official trailer'', exampleTitle @ '' trailer'']"
    by (simp add: trailerQueries_def num_toString_2001)
  have o0: "queryOutcome ?search exampleTitle ?y (exampleTitle @ '' 2001 official trailer'')
      = Inr None"
    by (simp add: queryOutcome_def findBestYouTubeTrailer_def)
  have o1: "queryOutcome ?search exampleTitle ?y (exampleTitle @ '' 2001 trailer'')
      = Inr (Some ?v)"
    by (simp add: queryOutcome_def exampleYt_best)
  have k: "Some ''key'' \<noteq> None \<and> Some ''key'' \<noteq> Some []
      \<and> ?y = yearOf ?gfy (Some ''2001-04-25'')"
    by (simp add: yearOf_def)
  have prem: "Suc 0 < length (trailerQueries exampleTitle ?y)
      \<and> (\<forall>j<Suc 0. queryOutcome ?search exampleTitle ?y
               (trailerQueries exampleTitle ?y ! j) = Inr None)
      \<and> queryOutcome ?search exampleTitle ?y
               (trailerQueries exampleTitle ?y ! Suc 0) = Inr (Some ?v)"
    using o0 o1 by (simp add: q)
  note t = searchYouTubeTrailer_queries_and_scores [where t = exampleTitle and y = ?y
      and key = "Some ''key''" and getFullYear = ?gfy
      and releaseDate = "Some ''2001-04-25''" and search = ?search,
      THEN conjunct2, THEN conjunct2, THEN conjunct2, THEN conjunct2, THEN conjunct2,
      THEN conjunct2, THEN conjunct2, THEN conjunct2, THEN conjunct2, THEN conjunct2,
      THEN conjunct2, THEN conjunct2, THEN conjunct2, THEN conjunct2, THEN conjunct2,
      THEN conjunct2, THEN mp, OF k, THEN conjunct1,
      THEN spec [where x = "Suc 0"], THEN spec [where x = ?v], THEN mp, OF prem]
  have s: "calculateTrailerScore ?v exampleTitle (yearOf ?gfy (Some ''2001-04-25''))
      = Inr (10 + 5 + 8 + 6 + 10)"
    "calculateTrailerScore ?w exampleTitle (yearOf ?gfy (Some ''2001-04-25'')) = Inr 6"
    unfolding y using exampleYt_score by simp_all
  have "take (Suc (Suc 0)) (trailerQueries exampleTitle ?y)
      = [exampleTitle @ '' 2001 official trailer'', exampleTitle @ '' 2001 trailer'']"
    by (simp add: q)
  then show ?thesis using t s by simp
qed

text \<open>
  Claim C5. Whatever the provider does, a failure of the secondary search is caught:
  \<open>searchYouTubeTrailer\<close> returns null when its body throws, when no API key is
  configured, and when no query yields a trailer. \<open>movieTrailer\<close> then assigns null
  when the primary lookup found nothing either. It returns for every provider whenever
  the videos of the details response have names, and it fails only when the primary
  lookup itself throws.
\<close>

theorem movieTrailer_never_fails_on_provider:
  "(key \<noteq> None \<and> key \<noteq> Some []
      \<and> searchYouTubeTrailer_body search getFullYear t releaseDate = (sent, Inl e) \<longrightarrow>
      searchYouTubeTrailer key search getFullYear t releaseDate = (sent, None))
   \<and> (key = None \<or> key = Some [] \<longrightarrow>
        searchYouTubeTrailer key search getFullYear t releaseDate = ([], None))
   \<and> ((\<forall>q\<in>set (trailerQueries t (yearOf getFullYear releaseDate)).
          queryOutcome search t (yearOf getFullYear releaseDate) q = Inr None) \<longrightarrow>
        snd (searchYouTubeTrailer key search getFullYear t releaseDate) = None)
   \<and> (getValidTMDBTrailer videos = Inr None
        \<and> snd (searchYouTubeTrailer key search getFullYear t releaseDate) = None \<longrightarrow>
        movieTrailer key search getFullYear videos t releaseDate = Inr None)
   \<and> ((\<forall>v\<in>set videos. video_name v \<noteq> None) \<longrightarrow>
        (\<exists>r. movieTrailer key search getFullYear videos t releaseDate = Inr r))
   \<and> (movieTrailer key search getFullYear videos t releaseDate = Inl err \<longrightarrow>
        (\<exists>e'. getValidTMDBTrailer videos = Inl e'))"
proof -
  have a: "searchYouTubeTrailer key search getFullYear t releaseDate = (sent, None)"
    if "key \<noteq> None \<and> key \<noteq> Some []
      \<and> searchYouTubeTrailer_body search getFullYear t releaseDate = (sent, Inl e)"
    using that by (auto simp: searchYouTubeTrailer_def)
  have b: "searchYouTubeTrailer key search getFullYear t releaseDate = ([], None)"
    if "key = None \<or> key = Some []"
    using that by (auto simp: searchYouTubeTrailer_def)
  have c: "snd (searchYouTubeTrailer key search getFullYear t releaseDate) = None"
    if n: "\<forall>q\<in>set (trailerQueries t (yearOf getFullYear releaseDate)).
          queryOutcome search t (yearOf getFullYear releaseDate) q = Inr None"
  proof (cases "key = None \<or> key = Some []")
    case True
    then show ?thesis using b by simp
  next
    case False
    then have k: "key \<noteq> None" "key \<noteq> Some []" by simp_all
    let ?y = "yearOf getFullYear releaseDate"
    have "dropWhile (\<lambda>q. queryOutcome search t ?y q = Inr None) (trailerQueries t ?y) = []"
      using n by simp
    then show ?thesis
      unfolding searchYouTubeTrailer_char [OF k, of search getFullYear t releaseDate]
      by (simp only: list.case snd_conv)
  qed
  have d: "movieTrailer key search getFullYear videos t releaseDate = Inr None"
    if "getValidTMDBTrailer videos = Inr None
        \<and> snd (searchYouTubeTrailer key search getFullYear t releaseDate) = None"
    using that by (simp add: movieTrailer_def)
  have e: "\<exists>r. movieTrailer key search getFullYear videos t releaseDate = Inr r"
    if "\<forall>v\<in>set videos. video_name v \<noteq> None"
  proof -
    have "getValidTMDBTrailer videos = Inr (spec_primaryLookup videos)"
      using that by (intro getValidTMDBTrailer_named) simp
    then show ?thesis
      by (simp add: movieTrailer_def split: option.splits)
  qed
  have f: "\<exists>e'. getValidTMDBTrailer videos = Inl e'"
    if "movieTrailer key search getFullYear videos t releaseDate = Inl err"
    using that by (auto simp: movieTrailer_def split: sum.splits option.splits)
  show ?thesis using a b c d e f by blast
qed

theorem movieTrailer_never_fails_on_provider_witness:
  "movieTrailer (Some ''key'') (\<lambda>q. Inl ProviderError) (\<lambda>d. None) [] ''Movie Title'' None = Inr None
   \<and> movieTrailer None (\<lambda>q. Inr []) (\<lambda>d. None) [] ''Movie Title'' None = Inr None
   \<and> searchYouTubeTrailer (Some ''key'') (\<lambda>q. Inl ProviderError) (\<lambda>d. None) ''Movie Title'' None
       = ([''Movie Title  official trailer''], None)"
proof -
  have p: "getValidTMDBTrailer [] = Inr None" by (simp add: getValidTMDBTrailer_def)
  have body: "searchYouTubeTrailer_body (\<lambda>q. Inl ProviderError) (\<lambda>d. None) ''Movie Title'' None
      = ([''Movie Title  official trailer''], Inl ProviderError)"
    by (simp add: searchYouTubeTrailer_body_def yearOf_def trailerQueries_def)
  note t1 = movieTrailer_never_fails_on_provider [where key = "Some ''key''" and search = "\<lambda>q. Inl ProviderError"
      and getFullYear = "\<lambda>d. None" and t = "''Movie Title''" and releaseDate = None
      and sent = "[''Movie Title  official trailer'']" and e = ProviderError and videos = "[]"]
  note t2 = movieTrailer_never_fails_on_provider [where key = None and search = "\<lambda>q. Inr []"
      and getFullYear = "\<lambda>d. None" and t = "''Movie Title''" and releaseDate = None
      and videos = "[]"]
  have s1: "searchYouTubeTrailer (Some ''key'') (\<lambda>q. Inl ProviderError) (\<lambda>d. None) ''Movie Title'' None
       = ([''Movie Title  official trailer''], None)"
    using t1 body by simp
  have "movieTrailer (Some ''key'') (\<lambda>q. Inl ProviderError) (\<lambda>d. None) [] ''Movie Title'' None = Inr None"
    using t1 p s1 by simp
  moreover have "movieTrailer None (\<lambda>q. Inr []) (\<lambda>d. None) [] ''Movie Title'' None = Inr None"
    using t2 p by simp
  ultimately show ?thesis using s1 by simp
qed

section \<open>Deduplication\<close>

lemma firstOccurrences_Nil: "firstOccurrences key seen [] = []"
  by (simp add: firstOccurrences_def)

lemma firstOccurrences_Cons:
  "firstOccurrences key seen (x # xs) =
     (if key x \<in> seen then firstOccurrences key seen xs
      else x # firstOccurrences key (insert (key x) seen) xs)"
proof -
  have u: "[0..<length (x # xs)] = 0 # map Suc [0..<length xs]"
    by (simp add: upt_conv_Cons map_Suc_upt del: upt_Suc)
  have ins: "key x \<in> seen \<Longrightarrow> insert (key x) seen = seen" by auto
  have tl: "map (nth (x # xs))
              (filter (\<lambda>i. key ((x # xs) ! i) \<notin> seen \<union> key ` set (take i (x # xs)))
                 (map Suc [0..<length xs]))
            = firstOccurrences key (insert (key x) seen) xs"
  proof -
    have "filter (\<lambda>i. key ((x # xs) ! i) \<notin> seen \<union> key ` set (take i (x # xs)))
            (map Suc [0..<length xs])
          = map Suc (filter (\<lambda>i. key (xs ! i) \<notin> insert (key x) seen \<union> key ` set (take i xs))
              [0..<length xs])"
      unfolding filter_map comp_def
      by (rule arg_cong [where f = "map Suc"], rule filter_cong) auto
    then show ?thesis by (simp add: firstOccurrences_def comp_def)
  qed
  show ?thesis
    unfolding firstOccurrences_def [of key seen "x # xs"] u
    using tl by (simp add: ins)
qed

lemma uniqueContent_loop_firstOccurrences:
  "uniqueContent_loop xs seen acc = acc @ firstOccurrences contentKey seen xs"
  by (induction xs arbitrary: seen acc)
    (simp_all add: firstOccurrences_Nil firstOccurrences_Cons Let_def)

lemma firstOccurrences_keys:
  "key ` set (firstOccurrences key seen xs) = key ` set xs - seen"
  by (induction xs arbitrary: seen) (auto simp: firstOccurrences_Nil firstOccurrences_Cons)

lemma firstOccurrences_distinct:
  "distinct (map key (firstOccurrences key seen xs))"
proof (induction xs arbitrary: seen)
  case Nil
  then show ?case by (simp add: firstOccurrences_Nil)
next
  case (Cons x xs)
  have "key x \<notin> key ` set (firstOccurrences key (insert (key x) seen) xs)"
    by (simp add: firstOccurrences_keys)
  then show ?case using Cons.IH by (simp add: firstOccurrences_Cons)
qed

lemma firstOccurrences_id:
  "distinct (map key xs) \<Longrightarrow> key ` set xs \<inter> seen = {} \<Longrightarrow> firstOccurrences key seen xs = xs"
proof (induction xs arbitrary: seen)
  case Nil
  then show ?case by (simp add: firstOccurrences_Nil)
next
  case (Cons x xs)
  have "key ` set xs \<inter> insert (key x) seen = {}" using Cons.prems by auto
  then have "firstOccurrences key (insert (key x) seen) xs = xs"
    using Cons.IH Cons.prems by simp
  then show ?case using Cons.prems by (simp add: firstOccurrences_Cons)
qed

lemma firstOccurrences_subseq: "subseq (firstOccurrences key seen xs) xs"
  by (induction xs arbitrary: seen) (auto simp: firstOccurrences_Nil firstOccurrences_Cons)

lemma findIndex_first:
  "i < length xs \<Longrightarrow> (int i = findIndex p xs) = (p (xs ! i) \<and> (\<forall>j<i. \<not> p (xs ! j)))"
proof (induction xs arbitrary: i)
  case Nil
  then show ?case by simp
next
  case (Cons x xs)
  show ?case
  proof (cases i)
    case 0
    then show ?thesis by (auto simp: Let_def)
  next
    case (Suc k)
    then have k: "k < length xs" using Cons.prems by simp
    show ?thesis
    proof (cases "p x")
      case True
      then show ?thesis using Suc by auto
    next
      case False
      have "(int (Suc k) = findIndex p (x # xs)) = (int k = findIndex p xs)"
        using False by (auto simp: Let_def)
      also have "\<dots> = (p (xs ! k) \<and> (\<forall>j<k. \<not> p (xs ! j)))"
        using Cons.IH [OF k] .
      also have "\<dots> = (p ((x # xs) ! Suc k) \<and> (\<forall>j<Suc k. \<not> p ((x # xs) ! j)))"
        using False by (auto simp: less_Suc_eq_0_disj)
      finally show ?thesis using Suc by simp
    qed
  qed
qed

lemma zip_upt_nth: "zip [0..<length xs] xs = map (\<lambda>i. (i, xs ! i)) [0..<length xs]"
  by (rule nth_equalityI) auto

lemma uniqueMovies_firstOccurrences:
  "uniqueMovies xs = firstOccurrences item_id {} xs"
proof -
  have c: "(int i = findIndex (\<lambda>m. item_id m = item_id (xs ! i)) xs)
         = (item_id (xs ! i) \<notin> {} \<union> item_id ` set (take i xs))"
    if "i < length xs" for i
  proof -
    have "(item_id (xs ! i) \<in> item_id ` set (take i xs))
            = (\<exists>j<i. item_id (xs ! j) = item_id (xs ! i))"
    proof
      assume "item_id (xs ! i) \<in> item_id ` set (take i xs)"
      then obtain m where m: "m \<in> set (take i xs)" "item_id m = item_id (xs ! i)" by auto
      then obtain j where "j < length (take i xs)" "take i xs ! j = m"
        by (auto simp: in_set_conv_nth)
      then show "\<exists>j<i. item_id (xs ! j) = item_id (xs ! i)" using m(2) by auto
    next
      assume "\<exists>j<i. item_id (xs ! j) = item_id (xs ! i)"
      then obtain j where j: "j < i" "item_id (xs ! j) = item_id (xs ! i)" by auto
      then have "xs ! j \<in> set (take i xs)"
        using that by (auto simp: in_set_conv_nth intro!: exI [where x = j])
      then show "item_id (xs ! i) \<in> item_id ` set (take i xs)"
        using j(2) by (metis imageI)
    qed
    then show ?thesis using findIndex_first [OF that, of "\<lambda>m. item_id m = item_id (xs ! i)"]
      by auto
  qed
  have "uniqueMovies xs =
      map (nth xs) (filter (\<lambda>i. int i = findIndex (\<lambda>m. item_id m = item_id (xs ! i)) xs)
        [0..<length xs])"
    by (simp add: uniqueMovies_def enumerate_eq_zip zip_upt_nth filter_map comp_def)
  also have "\<dots> = firstOccurrences item_id {} xs"
    unfolding firstOccurrences_def
    by (rule arg_cong [where f = "map (nth xs)"], rule filter_cong) (auto simp: c)
  finally show ?thesis .
qed

text \<open>The key of \<open>getWatchAtHomeContent\<close> is the pair of media type and id, written as a string.\<close>

lemma digit_char_inj:
  assumes "d < 10" "d' < 10" "digit_char d = digit_char d'"
  shows "d = d'"
proof -
  have "distinct ''0123456789''" by simp
  moreover have "d < length ''0123456789''" "d' < length ''0123456789''" using assms by simp_all
  ultimately show ?thesis using assms(3) unfolding digit_char_def
    by (simp only: nth_eq_iff_index_eq)
qed

lemma digit_char_not_minus: "d < 10 \<Longrightarrow> digit_char d \<noteq> CHR ''-''"
proof -
  assume "d < 10"
  then have "digit_char d \<in> set ''0123456789''"
    unfolding digit_char_def by (intro nth_mem) simp
  then show ?thesis by auto
qed

lemma digits_no_minus: "CHR ''-'' \<notin> set (digits n)"
proof (induction n rule: digits.induct)
  case (1 n)
  show ?case
  proof (cases "n < 10")
    case True
    then show ?thesis using digit_char_not_minus [of n] by (simp add: digits_small)
  next
    case False
    then show ?thesis using "1.IH" digit_char_not_minus [of "n mod 10"]
      by (simp add: digits_large)
  qed
qed

lemma digits_inj: "digits n = digits m \<Longrightarrow> n = m"
proof (induction n arbitrary: m rule: digits.induct)
  case (1 n)
  show ?case
  proof (cases "n < 10")
    case True
    show ?thesis
    proof (cases "m < 10")
      case m: True
      then show ?thesis using True "1.prems" digit_char_inj by (simp add: digits_small)
    next
      case m: False
      then show ?thesis using True "1.prems" digits_not_Nil [of "m div 10"]
        by (simp add: digits_small digits_large)
    qed
  next
    case False
    show ?thesis
    proof (cases "m < 10")
      case m: True
      then show ?thesis using False "1.prems" digits_not_Nil [of "n div 10"]
        by (simp add: digits_small digits_large)
    next
      case m: False
      then have "digits (n div 10) = digits (m div 10)"
        "digit_char (n mod 10) = digit_char (m mod 10)"
        using False "1.prems" by (simp_all add: digits_large)
      then have "n div 10 = m div 10" "n mod 10 = m mod 10"
        using "1.IH" [OF False] digit_char_inj [of "n mod 10" "m mod 10"] by simp_all
      then show ?thesis by (metis div_mult_mod_eq)
    qed
  qed
qed

lemma num_toString_inj: "num_toString i = num_toString j \<Longrightarrow> i = j"
proof -
  assume h: "num_toString i = num_toString j"
  have hd: "hd (digits n) \<noteq> CHR ''-''" for n
    using digits_no_minus [of n] digits_not_Nil [of n] by (cases "digits n") auto
  show ?thesis
  proof (cases "i < 0")
    case True
    show ?thesis
    proof (cases "j < 0")
      case j: True
      then have "nat (- i) = nat (- j)" using h True digits_inj by (simp add: num_toString_def)
      then show ?thesis using True j by simp
    next
      case j: False
      then have "CHR ''-'' # digits (nat (- i)) = digits (nat j)"
        using h True by (simp add: num_toString_def)
      then have "hd (digits (nat j)) = CHR ''-''" by (metis list.sel(1))
      then show ?thesis using hd [of "nat j"] by simp
    qed
  next
    case False
    show ?thesis
    proof (cases "j < 0")
      case j: True
      then have "digits (nat i) = CHR ''-'' # digits (nat (- j))"
        using h False by (simp add: num_toString_def)
      then have "hd (digits (nat i)) = CHR ''-''" by (metis list.sel(1))
      then show ?thesis using hd [of "nat i"] by simp
    next
      case j: False
      then have "nat i = nat j" using h False digits_inj by (simp add: num_toString_def)
      then show ?thesis using False j by simp
    qed
  qed
qed

lemma contentKey_inj:
  assumes "media_type a \<in> {Some ''movie'', Some ''tv'', Some ''anime''}"
    "media_type b \<in> {Some ''movie'', Some ''tv'', Some ''anime''}"
  shows "(contentKey a = contentKey b) = (media_type a = media_type b \<and> item_id a = item_id b)"
  using assms num_toString_inj [of "item_id a" "item_id b"]
  by (auto simp: contentKey_def template_str_def)

text \<open>
  Claim C6. Both deduplications, the filter by \<^verbatim>\<open>findIndex\<close> of \<open>getUpcomingMovies\<close>
  (key: the id) and the loop with the set \<open>seen\<close> of \<open>getWatchAtHomeContent\<close> (key: media
  type and id), return the first occurrence of each key in the order of the input: no
  two items of the result share a key, the result is a subsequence of the input that
  has every key of the input, an input without duplicate keys is returned as it is, and
  the empty list gives the empty list.
\<close>

theorem deduplication_keeps_first_occurrences:
  "uniqueMovies xs = firstOccurrences item_id {} xs
   \<and> uniqueContent xs = firstOccurrences contentKey {} xs
   \<and> distinct (map item_id (uniqueMovies xs))
   \<and> distinct (map contentKey (uniqueContent xs))
   \<and> subseq (uniqueMovies xs) xs \<and> subseq (uniqueContent xs) xs
   \<and> item_id ` set (uniqueMovies xs) = item_id ` set xs
   \<and> contentKey ` set (uniqueContent xs) = contentKey ` set xs
   \<and> (distinct (map item_id xs) \<longrightarrow> uniqueMovies xs = xs)
   \<and> (distinct (map contentKey xs) \<longrightarrow> uniqueContent xs = xs)
   \<and> uniqueMovies [] = [] \<and> uniqueContent [] = []
   \<and> (media_type a \<in> {Some ''movie'', Some ''tv'', Some ''anime''}
        \<and> media_type b \<in> {Some ''movie'', Some ''tv'', Some ''anime''} \<longrightarrow>
        (contentKey a = contentKey b) = (media_type a = media_type b \<and> item_id a = item_id b))"
proof -
  have m: "uniqueMovies ys = firstOccurrences item_id {} ys" for ys
    by (rule uniqueMovies_firstOccurrences)
  have c: "uniqueContent ys = firstOccurrences contentKey {} ys" for ys
    by (simp add: uniqueContent_def uniqueContent_loop_firstOccurrences)
  show ?thesis
    unfolding m c
    using firstOccurrences_distinct [of item_id "{}" xs]
      firstOccurrences_distinct [of contentKey "{}" xs]
      firstOccurrences_subseq [of item_id "{}" xs] firstOccurrences_subseq [of contentKey "{}" xs]
      firstOccurrences_keys [of item_id "{}" xs] firstOccurrences_keys [of contentKey "{}" xs]
      firstOccurrences_id [of item_id xs "{}"] firstOccurrences_id [of contentKey xs "{}"]
      contentKey_inj [of a b]
    by (simp add: firstOccurrences_Nil)
qed

theorem deduplication_keeps_first_occurrences_witness:
  "uniqueMovies [exampleItem 1 ''Avatar'' None, exampleItem 2 ''Dune'' None,
                 exampleItem 1 ''Avatar 2'' None]
     = [exampleItem 1 ''Avatar'' None, exampleItem 2 ''Dune'' None]
   \<and> uniqueMovies [exampleItem 1 ''Avatar'' None, exampleItem 2 ''Dune'' None]
     = [exampleItem 1 ''Avatar'' None, exampleItem 2 ''Dune'' None]"
proof -
  let ?a = "exampleItem 1 ''Avatar'' None" and ?b = "exampleItem 2 ''Dune'' None"
  let ?c = "exampleItem 1 ''Avatar 2'' None"
  have i: "item_id ?a = 1" "item_id ?b = 2" "item_id ?c = 1" by (simp_all add: exampleItem_def)
  have "firstOccurrences item_id {} [?a, ?b, ?c] = [?a, ?b]"
    by (simp add: firstOccurrences_Cons firstOccurrences_Nil i)
  then have 1: "uniqueMovies [?a, ?b, ?c] = [?a, ?b]"
    using deduplication_keeps_first_occurrences [of "[?a, ?b, ?c]"] by simp
  have "distinct (map item_id [?a, ?b])" by (simp add: i)
  then have 2: "uniqueMovies [?a, ?b] = [?a, ?b]"
    using deduplication_keeps_first_occurrences [of "[?a, ?b]"] by blast
  show ?thesis using 1 2 by simp
qed

section \<open>The genre filter\<close>

text \<open>
  The filter of \<open>getWatchAtHomeContent\<close> keeps exactly the items none of whose genres
  is excluded, an item without genres among them; the filter of \<open>getPopularTVShows\<close>
  keeps only the items that have genres, none of them excluded.
\<close>

lemma filteredShows_char:
  "filteredShows xs =
     filter (\<lambda>x. \<exists>gs. genres x = Some gs \<and> set gs \<inter> set EXCLUDED_GENRE_IDS = {}) xs"
  unfolding filteredShows_def
  by (rule filter_cong) (auto simp: list_ex_iff split: option.splits)

lemma tvShowsFiltered_char:
  "tvShowsFiltered xs =
     filter (\<lambda>x. \<forall>gs. genres x = Some gs \<longrightarrow> set gs \<inter> set EXCLUDED_GENRE_IDS = {}) xs"
  unfolding tvShowsFiltered_def
  by (rule filter_cong) (auto simp: list_ex_iff split: option.splits)

text \<open>
  Claim C7 says that an item carrying no genre information is retained. The filter of
  \<open>getWatchAtHomeContent\<close> retains it; the filter of \<open>getPopularTVShows\<close> (lines
  139-143) removes it, although line 133 keeps a show whose details request failed,
  which is such an item.
\<close>

theorem filteredShows_drops_show_without_genres:
  "genres (exampleItem 1 ''Dark'' None) = None
   \<and> filteredShows [exampleItem 1 ''Dark'' None] = []
   \<and> tvShowsFiltered [exampleItem 1 ''Dark'' None] = [exampleItem 1 ''Dark'' None]"
  by (simp add: filteredShows_def tvShowsFiltered_def exampleItem_def)

end
